theory Spec2Isabelle
  imports Main
begin

section \<open>Strings of the host language\<close>

text \<open>
  Source strings are modelled as HOL strings. \<open>toLowerCase\<close> maps the letters A to Z and
  leaves every other character as it is; \<open>trim\<close> strips tab, line feed, vertical tab, form
  feed, carriage return and space from both ends.
\<close>

definition toLowerCase_char :: "char \<Rightarrow> char" where
  "toLowerCase_char c =
     (case map_of (zip ''ABCDEFGHIJKLMNOPQRSTUVWXYZ'' ''abcdefghijklmnopqrstuvwxyz'') c of
        Some l \<Rightarrow> l
      | None \<Rightarrow> c)"

definition toLowerCase :: "string \<Rightarrow> string" where
  "toLowerCase s = map toLowerCase_char s"

text \<open>\<open>s.split(sep)\<close> for a one-character separator: never the empty list.\<close>

fun js_split :: "char \<Rightarrow> string \<Rightarrow> string list" where
  "js_split sep [] = [[]]"
| "js_split sep (c # cs) =
     (if c = sep then [] # js_split sep cs
      else (case js_split sep cs of
              seg # segs \<Rightarrow> (c # seg) # segs
            | [] \<Rightarrow> [[c]]))"

text \<open>\<open>xs.join(sep)\<close> on a list of strings.\<close>

fun js_join :: "string \<Rightarrow> string list \<Rightarrow> string" where
  "js_join sep [] = []"
| "js_join sep [x] = x"
| "js_join sep (x # y # ys) = x @ sep @ js_join sep (y # ys)"

definition isWhiteSpace :: "char \<Rightarrow> bool" where
  "isWhiteSpace c = (c \<in> set [CHR 0x09, CHR 0x0A, CHR 0x0B, CHR 0x0C, CHR 0x0D, CHR 0x20])"

definition trim :: "string \<Rightarrow> string" where
  "trim s = rev (dropWhile isWhiteSpace (rev (dropWhile isWhiteSpace s)))"

section \<open>generateKeystrokeScript\<close>

text \<open>
  The value of a property read \<open>obj[name]\<close>: undefined, a string, or an object or function
  found on the prototype chain, kept with the text that string conversion gives it.
\<close>

datatype js_value = JUndefined | JString string | JInherited string

text \<open>The eight own properties of the object literal \<open>modifierMap\<close>.\<close>

definition modifierMap :: "(string \<times> string) list" where
  "modifierMap =
     [(''cmd'', ''command down''),
      (''command'', ''command down''),
      (''shift'', ''shift down''),
      (''opt'', ''option down''),
      (''option'', ''option down''),
      (''alt'', ''option down''),
      (''ctrl'', ''control down''),
      (''control'', ''control down'')]"

text \<open>
  \<open>modifierMap\<close> is an object literal, so a read of a name it does not own continues on
  \<open>Object.prototype\<close>. Its properties, each with its string conversion (the functions as
  Node prints a native function).
\<close>

definition Object_prototype :: "(string \<times> string) list" where
  "Object_prototype =
     [(''constructor'', ''function Object() { [native code] }''),
      (''__defineGetter__'', ''function __defineGetter__() { [native code] }''),
      (''__defineSetter__'', ''function __defineSetter__() { [native code] }''),
      (''hasOwnProperty'', ''function hasOwnProperty() { [native code] }''),
      (''__lookupGetter__'', ''function __lookupGetter__() { [native code] }''),
      (''__lookupSetter__'', ''function __lookupSetter__() { [native code] }''),
      (''isPrototypeOf'', ''function isPrototypeOf() { [native code] }''),
      (''propertyIsEnumerable'', ''function propertyIsEnumerable() { [native code] }''),
      (''toString'', ''function toString() { [native code] }''),
      (''valueOf'', ''function valueOf() { [native code] }''),
      (''__proto__'', ''[object Object]''),
      (''toLocaleString'', ''function toLocaleString() { [native code] }'')]"

text \<open>\<open>modifierMap[mod]\<close>.\<close>

definition modifierMap_get :: "string \<Rightarrow> js_value" where
  "modifierMap_get m =
     (case map_of modifierMap m of
        Some v \<Rightarrow> JString v
      | None \<Rightarrow> (case map_of Object_prototype m of
                   Some v \<Rightarrow> JInherited v
                 | None \<Rightarrow> JUndefined))"

text \<open>The filter \<open>mod => mod\<close> keeps the truthy values.\<close>

fun truthy :: "js_value \<Rightarrow> bool" where
  "truthy JUndefined = False"
| "truthy (JString s) = (s \<noteq> [])"
| "truthy (JInherited s) = True"

text \<open>String conversion of an element, as \<open>join\<close> performs it.\<close>

fun js_toString :: "js_value \<Rightarrow> string" where
  "js_toString JUndefined = []"
| "js_toString (JString s) = s"
| "js_toString (JInherited s) = s"

definition generateKeystrokeScript :: "string \<Rightarrow> string" where
  \<open>generateKeystrokeScript shortcut =
     (let parts = js_split CHR ''+'' (toLowerCase shortcut);
          key = last parts;
          modifiers = butlast parts;
          appleScriptModifiers =
            js_join '', '' (map js_toString (filter truthy (map modifierMap_get modifiers)))
      in if appleScriptModifiers \<noteq> []
         then ''keystroke "'' @ key @ ''" using {'' @ appleScriptModifiers @ ''}''
         else ''keystroke "'' @ key @ ''"'')\<close>

section \<open>External calls, controller state and asynchronous programs\<close>

text \<open>
  An AppleScript text is kept as the template it is built from together with the values
  spliced into it: the program never inspects a script, it only hands it to \<open>osascript\<close>.
\<close>

datatype script =
    KeyboardToggle nat string  \<comment> \<open>activate, delay (ms), keystroke command\<close>
  | MenubarMute string  \<comment> \<open>ZoomMuteToggle.getMenubarScript(fallbackScript)\<close>
  | MenubarVideo string  \<comment> \<open>ZoomVideoToggle.getMenubarScript(fallbackScript)\<close>
  | CheckMeeting  \<comment> \<open>exists menu bar item "Meeting"\<close>
  | MonitorDetectMute  \<comment> \<open>ZoomMonitor.detectZoomMuteState\<close>
  | MonitorDetectVideo  \<comment> \<open>ZoomMonitor.detectZoomVideoState\<close>
  | AudioMonitorDetectVideo  \<comment> \<open>ZoomAudioMonitor.detectZoomVideoState\<close>

text \<open>Everything the program asks of its environment.\<close>

datatype call =
    Osascript script  \<comment> \<open>spawn('osascript', ['-e', script])\<close>
  | Spawn string "string list"  \<comment> \<open>spawn(command, args)\<close>
  | SetTitle string  \<comment> \<open>action.setTitle\<close>
  | SetState nat  \<comment> \<open>action.setState\<close>
  | Delay nat  \<comment> \<open>this.delay(ms)\<close>
  | ExecSyncOsascript script  \<comment> \<open>execSync(`osascript -e '...'`)\<close>
  | ExecSyncPgrep  \<comment> \<open>execSync(`pgrep -f "zoom.us"`)\<close>

text \<open>How a spawned process ends: a close event with exit code, stdout and stderr, or an
  error event with its message.\<close>

datatype proc_result =
    Closed "int option" string string
  | SpawnError string

datatype js_error =
    AppleScriptFailed "int option" string
  | AppleScriptSpawnFailed string
  | CommandFailed "int option" string
  | CommandSpawnFailed string
  | InvalidShortcut string
  | InvalidShortcutFormat string
  | ExecSyncFailed "int option" string
  | ExecSyncSpawnFailed string

record ZoomToggleConfig =
  stateCheckInterval_ms :: nat
  stateUpdateDelay :: nat
  activationDelay :: nat
  maxRetryAttempts :: nat
  retryDelay :: nat

definition config :: ZoomToggleConfig where
  "config = \<lparr>stateCheckInterval_ms = 1000, stateUpdateDelay = 1000, activationDelay = 100,
              maxRetryAttempts = 3, retryDelay = 200\<rparr>"

record ZoomToggleSettings =
  controlMethod :: "string option"
  keyboardShortcut :: "string option"

text \<open>
  The fields of a controller instance (\<open>isUpdating\<close>, \<open>stateCheckInterval\<close>,
  \<open>lastKnownState\<close> of the stand-alone video action), the key it draws on (title and state),
  the timers of the runtime (live intervals as handle and period, pending one-shot timers
  as their delays), and the calls issued so far.
\<close>

record world =
  isUpdating :: bool
  stateCheckInterval :: "nat option"
  lastKnownState :: string
  title :: string
  keyState :: nat
  intervals :: "(nat \<times> nat) list"
  timeouts :: "nat list"
  nextTimer :: nat
  trace :: "call list"

text \<open>
  An asynchronous function body: it returns, throws, reads or writes the instance
  synchronously, or awaits a call. \<open>AwaitProc\<close> awaits a spawned process and continues with
  how it ended; \<open>AwaitUnit\<close> awaits a call that resolves to nothing.
\<close>

datatype 'a prog =
    Ret 'a
  | Raise js_error
  | Get "world \<Rightarrow> 'a prog"
  | Put "world \<Rightarrow> world" "'a prog"
  | AwaitProc call "proc_result \<Rightarrow> 'a prog"
  | AwaitUnit call "'a prog"

primrec bind :: "'a prog \<Rightarrow> ('a \<Rightarrow> 'b prog) \<Rightarrow> 'b prog" where
  "bind (Ret x) f = f x"
| "bind (Raise e) f = Raise e"
| "bind (Get k) f = Get (\<lambda>w. bind (k w) f)"
| "bind (Put g p) f = Put g (bind p f)"
| "bind (AwaitProc c k) f = AwaitProc c (\<lambda>r. bind (k r) f)"
| "bind (AwaitUnit c p) f = AwaitUnit c (bind p f)"

text \<open>\<open>try { p } catch (error) { h error }\<close>\<close>

primrec try_catch :: "'a prog \<Rightarrow> (js_error \<Rightarrow> 'a prog) \<Rightarrow> 'a prog" where
  "try_catch (Ret x) h = Ret x"
| "try_catch (Raise e) h = h e"
| "try_catch (Get k) h = Get (\<lambda>w. try_catch (k w) h)"
| "try_catch (Put g p) h = Put g (try_catch p h)"
| "try_catch (AwaitProc c k) h = AwaitProc c (\<lambda>r. try_catch (k r) h)"
| "try_catch (AwaitUnit c p) h = AwaitUnit c (try_catch p h)"

text \<open>\<open>try { p } finally { fin }\<close>\<close>

primrec try_finally :: "'a prog \<Rightarrow> unit prog \<Rightarrow> 'a prog" where
  "try_finally (Ret x) fin = bind fin (\<lambda>_. Ret x)"
| "try_finally (Raise e) fin = bind fin (\<lambda>_. Raise e)"
| "try_finally (Get k) fin = Get (\<lambda>w. try_finally (k w) fin)"
| "try_finally (Put g p) fin = Put g (try_finally p fin)"
| "try_finally (AwaitProc c k) fin = AwaitProc c (\<lambda>r. try_finally (k r) fin)"
| "try_finally (AwaitUnit c p) fin = AwaitUnit c (try_finally p fin)"

text \<open>Issuing a call: it is recorded, and a call to the key takes effect on the key.\<close>

fun issue :: "call \<Rightarrow> world \<Rightarrow> world" where
  "issue (SetTitle s) w = w\<lparr>title := s, trace := trace w @ [SetTitle s]\<rparr>"
| "issue (SetState n) w = w\<lparr>keyState := n, trace := trace w @ [SetState n]\<rparr>"
| "issue c w = w\<lparr>trace := trace w @ [c]\<rparr>"

text \<open>
  One invocation run to its end with nothing else interleaved: the processes it spawns end
  as the list says, in order. \<open>None\<close> when the list is too short.
\<close>

primrec exec :: "'a prog \<Rightarrow> world \<Rightarrow> proc_result list
    \<Rightarrow> ((js_error + 'a) \<times> world \<times> proc_result list) option" where
  "exec (Ret x) w rs = Some (Inr x, w, rs)"
| "exec (Raise e) w rs = Some (Inl e, w, rs)"
| "exec (Get k) w rs = exec (k w) w rs"
| "exec (Put g p) w rs = exec p (g w) rs"
| "exec (AwaitProc c k) w rs =
     (case rs of [] \<Rightarrow> None | r # rs' \<Rightarrow> exec (k r) (issue c w) rs')"
| "exec (AwaitUnit c p) w rs = exec p (issue c w) rs"

section \<open>ZoomMonitor\<close>

text \<open>\<open>executeAppleScript\<close> (the same text in ZoomMonitor and in ZoomToggleBase).\<close>

text \<open>The handlers of the close and error events: how the promise settles.\<close>

fun appleScriptOutcome :: "proc_result \<Rightarrow> js_error + string" where
  "appleScriptOutcome (Closed code out err) =
     (if code = Some 0 then Inr (trim out) else Inl (AppleScriptFailed code (trim err)))"
| "appleScriptOutcome (SpawnError msg) = Inl (AppleScriptSpawnFailed msg)"

fun commandOutcome :: "proc_result \<Rightarrow> js_error + string" where
  "commandOutcome (Closed code out err) =
     (if code = Some 0 then Inr (trim out) else Inl (CommandFailed code (trim err)))"
| "commandOutcome (SpawnError msg) = Inl (CommandSpawnFailed msg)"

definition settle :: "js_error + 'a \<Rightarrow> 'a prog" where
  "settle x = (case x of Inl e \<Rightarrow> Raise e | Inr v \<Rightarrow> Ret v)"

definition executeAppleScript :: "script \<Rightarrow> string prog" where
  "executeAppleScript s = AwaitProc (Osascript s) (\<lambda>r. settle (appleScriptOutcome r))"

definition executeCommand :: "string \<Rightarrow> string list \<Rightarrow> string prog" where
  "executeCommand command args = AwaitProc (Spawn command args) (\<lambda>r. settle (commandOutcome r))"

text \<open>The warning logged for a result that starts with \<open>error:\<close> has no effect on the
  value and is left out, as is every other console message.\<close>

definition detectZoomMuteState :: "string prog" where
  "detectZoomMuteState =
     try_catch
       (bind (executeAppleScript MonitorDetectMute) (\<lambda>result.
          if result = ''muted'' \<or> result = ''unmuted'' then Ret result
          else Ret ''unknown''))
       (\<lambda>error. Ret ''unknown'')"

definition detectZoomVideoState :: "string prog" where
  "detectZoomVideoState =
     try_catch
       (bind (executeAppleScript MonitorDetectVideo) (\<lambda>result.
          if result = ''video_on'' \<or> result = ''video_off'' then Ret result
          else Ret ''unknown''))
       (\<lambda>error. Ret ''unknown'')"

definition getAudioState :: "(string \<times> string) prog" where
  "getAudioState =
     bind detectZoomMuteState (\<lambda>zoomState.
       Ret (zoomState, if zoomState \<noteq> ''unknown'' then ''high'' else ''low''))"

definition getVideoState :: "(string \<times> string) prog" where
  "getVideoState =
     bind detectZoomVideoState (\<lambda>zoomState.
       Ret (zoomState, if zoomState \<noteq> ''unknown'' then ''high'' else ''low''))"

section \<open>ZoomToggleBase\<close>

text \<open>The abstract methods a subclass supplies.\<close>

record zoom_subclass =
  getDefaultShortcut :: string
  getMenubarScript :: "string \<Rightarrow> script"
  detectState :: "string prog"
  setButtonState :: "string \<Rightarrow> unit prog"
  getActionType :: string

definition ZoomMuteToggle :: zoom_subclass where
  "ZoomMuteToggle =
     \<lparr>getDefaultShortcut = ''cmd+shift+option+a'',
      getMenubarScript = MenubarMute,
      detectState = detectZoomMuteState,
      setButtonState = (\<lambda>state.
        if state = ''muted'' then AwaitUnit (SetState 0) (Ret ())
        else if state = ''unmuted'' then AwaitUnit (SetState 1) (Ret ())
        else Ret ()),
      getActionType = ''mute''\<rparr>"

definition ZoomVideoToggle :: zoom_subclass where
  "ZoomVideoToggle =
     \<lparr>getDefaultShortcut = ''cmd+shift+v'',
      getMenubarScript = MenubarVideo,
      detectState = detectZoomVideoState,
      setButtonState = (\<lambda>state.
        if state = ''video_off'' then AwaitUnit (SetState 0) (Ret ())
        else if state = ''video_on'' then AwaitUnit (SetState 1) (Ret ())
        else Ret ()),
      getActionType = ''video''\<rparr>"

text \<open>\<open>a || b\<close> on an optional string: the empty string and undefined are falsy.\<close>

definition or_default :: "string option \<Rightarrow> string \<Rightarrow> string" where
  "or_default a b = (case a of None \<Rightarrow> b | Some s \<Rightarrow> if s = [] then b else s)"

definition delay :: "nat \<Rightarrow> unit prog" where
  "delay ms = AwaitUnit (Delay ms) (Ret ())"

definition cleanup :: "unit prog" where
  "cleanup =
     Get (\<lambda>w. case stateCheckInterval w of
        Some h \<Rightarrow>
          Put (\<lambda>w. w\<lparr>intervals := filter (\<lambda>i. fst i \<noteq> h) (intervals w),
                     stateCheckInterval := None\<rparr>) (Ret ())
      | None \<Rightarrow> Ret ())"

definition isZoomRunning :: "bool prog" where
  "isZoomRunning =
     try_catch
       (bind (executeCommand ''pgrep'' [''-f'', ''zoom.us'']) (\<lambda>result.
          Ret (length result > 0)))
       (\<lambda>error. Ret False)"

definition isInMeeting :: "bool prog" where
  "isInMeeting =
     try_catch
       (bind (executeAppleScript CheckMeeting) (\<lambda>result. Ret (result = ''true'')))
       (\<lambda>error. Ret False)"

definition validateKeyboardShortcut :: "string \<Rightarrow> string prog" where
  "validateKeyboardShortcut shortcut =
     (if shortcut = [] then Raise (InvalidShortcut shortcut)
      else if length (js_split CHR ''+'' (toLowerCase shortcut)) = 0
        then Raise (InvalidShortcutFormat shortcut)
      else Ret shortcut)"

text \<open>
  The retry loop of \<open>executeToggleAction\<close>, from the value of \<open>attempt\<close> at the loop head.
\<close>

function executeToggleAction_loop ::
  "ZoomToggleConfig \<Rightarrow> zoom_subclass \<Rightarrow> string \<Rightarrow> string \<Rightarrow> nat \<Rightarrow> unit prog" where
  "executeToggleAction_loop cfg sub method shortcut attempt =
     (if attempt < maxRetryAttempts cfg then
        try_catch
          (if method = ''menubar'' then
             bind (executeAppleScript (getMenubarScript sub (generateKeystrokeScript shortcut)))
               (\<lambda>_. Ret ())
           else
             bind (executeAppleScript
                     (KeyboardToggle (activationDelay cfg) (generateKeystrokeScript shortcut)))
               (\<lambda>_. Ret ()))
          (\<lambda>error.
             if attempt + 1 \<ge> maxRetryAttempts cfg then Raise error
             else bind (delay (retryDelay cfg * (attempt + 1)))
                    (\<lambda>_. executeToggleAction_loop cfg sub method shortcut (attempt + 1)))
      else Ret ())"
  by pat_completeness auto
termination
  by (relation "measure (\<lambda>(cfg, sub, method, shortcut, attempt). maxRetryAttempts cfg - attempt)")
     auto

declare executeToggleAction_loop.simps [simp del]

definition executeToggleAction ::
  "ZoomToggleConfig \<Rightarrow> zoom_subclass \<Rightarrow> string \<Rightarrow> string \<Rightarrow> unit prog" where
  "executeToggleAction cfg sub method shortcut = executeToggleAction_loop cfg sub method shortcut 0"

text \<open>The \<open>try\<close> statement of \<open>updateState\<close>, with its \<open>catch\<close> and its \<open>finally\<close>.\<close>

definition updateState_body :: "zoom_subclass \<Rightarrow> unit prog" where
  "updateState_body sub =
     try_finally
       (try_catch
          (bind isZoomRunning (\<lambda>running.
             if \<not> running then AwaitUnit (SetTitle ''Zoom\<newline>Not Running'') (Ret ())
             else
               bind isInMeeting (\<lambda>inMeeting.
                 if \<not> inMeeting then AwaitUnit (SetTitle ''Not in\<newline>Meeting'') (Ret ())
                 else
                   bind (detectState sub) (\<lambda>detectedState.
                     if detectedState \<noteq> ''unknown'' then
                       bind (setButtonState sub detectedState) (\<lambda>_.
                         AwaitUnit (SetTitle []) (Ret ()))
                     else Ret ()))))
          (\<lambda>error. AwaitUnit (SetTitle ''Error'') (Ret ())))
       (Put (\<lambda>w. w\<lparr>isUpdating := False\<rparr>) (Ret ()))"

definition updateState :: "zoom_subclass \<Rightarrow> unit prog" where
  "updateState sub =
     Get (\<lambda>w.
       if isUpdating w then Ret ()
       else Put (\<lambda>w. w\<lparr>isUpdating := True\<rparr>) (updateState_body sub))"

definition startPeriodicStateCheck :: "ZoomToggleConfig \<Rightarrow> unit prog" where
  "startPeriodicStateCheck cfg =
     bind cleanup (\<lambda>_.
       Put (\<lambda>w. w\<lparr>intervals := intervals w @ [(nextTimer w, stateCheckInterval_ms cfg)],
                  stateCheckInterval := Some (nextTimer w),
                  nextTimer := Suc (nextTimer w)\<rparr>) (Ret ()))"

text \<open>The callback that \<open>startPeriodicStateCheck\<close> hands to \<open>setInterval\<close>.\<close>

definition periodicStateCheck :: "zoom_subclass \<Rightarrow> unit prog" where
  "periodicStateCheck sub =
     try_catch
       (bind isZoomRunning (\<lambda>running.
          if running then
            bind isInMeeting (\<lambda>inMeeting. if inMeeting then updateState sub else Ret ())
          else Ret ()))
       (\<lambda>error. Ret ())"

text \<open>The callback that \<open>onKeyDown\<close> hands to \<open>setTimeout\<close>.\<close>

definition stateUpdateCallback :: "ZoomToggleConfig \<Rightarrow> zoom_subclass \<Rightarrow> unit prog" where
  "stateUpdateCallback cfg sub = bind (updateState sub) (\<lambda>_. startPeriodicStateCheck cfg)"

definition onWillAppear :: "ZoomToggleConfig \<Rightarrow> zoom_subclass \<Rightarrow> unit prog" where
  "onWillAppear cfg sub = bind (updateState sub) (\<lambda>_. startPeriodicStateCheck cfg)"

definition onWillDisappear :: "unit prog" where
  "onWillDisappear = cleanup"

definition onKeyDown :: "ZoomToggleConfig \<Rightarrow> zoom_subclass \<Rightarrow> ZoomToggleSettings \<Rightarrow> unit prog" where
  "onKeyDown cfg sub settings =
     try_catch
       (bind cleanup (\<lambda>_.
        bind isZoomRunning (\<lambda>running.
          if \<not> running then AwaitUnit (SetTitle ''Zoom\<newline>Not Running'') (Ret ())
          else
            bind (validateKeyboardShortcut
                    (or_default (keyboardShortcut settings) (getDefaultShortcut sub)))
              (\<lambda>shortcut.
            bind (executeToggleAction cfg sub
                    (or_default (controlMethod settings) ''keyboard'') shortcut) (\<lambda>_.
            Put (\<lambda>w. w\<lparr>timeouts := timeouts w @ [stateUpdateDelay cfg]\<rparr>) (Ret ()))))))
       (\<lambda>error. AwaitUnit (SetTitle ''Error'') (Ret ()))"

section \<open>The stand-alone video action and ZoomAudioMonitor\<close>

text \<open>
  The video action that does not extend the base class runs its commands with \<open>execSync\<close>,
  which blocks until the process has ended, returns its stdout and throws unless the exit
  code is 0. It is written with \<open>AwaitProc\<close> and only ever run by \<open>exec\<close>.
\<close>

fun execSyncOutcome :: "proc_result \<Rightarrow> js_error + string" where
  "execSyncOutcome (Closed code out err) =
     (if code = Some 0 then Inr out else Inl (ExecSyncFailed code err))"
| "execSyncOutcome (SpawnError msg) = Inl (ExecSyncSpawnFailed msg)"

definition execSync :: "call \<Rightarrow> string prog" where
  "execSync c = AwaitProc c (\<lambda>r. settle (execSyncOutcome r))"

definition audioMonitor_detectZoomVideoState :: "string prog" where
  "audioMonitor_detectZoomVideoState =
     try_catch
       (bind (execSync (ExecSyncOsascript AudioMonitorDetectVideo)) (\<lambda>out.
          if trim out = ''video_on'' \<or> trim out = ''video_off'' then Ret (trim out)
          else Ret ''unknown''))
       (\<lambda>error. Ret ''unknown'')"

definition video_isZoomRunning :: "bool prog" where
  "video_isZoomRunning =
     try_catch
       (bind (execSync ExecSyncPgrep) (\<lambda>out. Ret (length (trim out) > 0)))
       (\<lambda>error. Ret False)"

definition video_isInMeeting :: "bool prog" where
  "video_isInMeeting =
     try_catch
       (bind (execSync (ExecSyncOsascript CheckMeeting)) (\<lambda>out. Ret (trim out = ''true'')))
       (\<lambda>error. Ret False)"

definition video_setButtonState :: "string \<Rightarrow> unit prog" where
  "video_setButtonState state =
     (if state = ''video_off'' then AwaitUnit (SetState 0) (Ret ())
      else AwaitUnit (SetState 1) (Ret ()))"

definition video_onKeyDown :: "ZoomToggleSettings \<Rightarrow> unit prog" where
  "video_onKeyDown settings =
     try_catch
       (bind video_isZoomRunning (\<lambda>running.
          if \<not> running then AwaitUnit (SetTitle ''Zoom\<newline>Not Running'') (Ret ())
          else
            bind (execSync (ExecSyncOsascript
                    (if or_default (controlMethod settings) ''keyboard'' = ''menubar''
                     then MenubarVideo (generateKeystrokeScript
                            (or_default (keyboardShortcut settings) ''cmd+shift+v''))
                     else KeyboardToggle 100 (generateKeystrokeScript
                            (or_default (keyboardShortcut settings) ''cmd+shift+v'')))))
              (\<lambda>_.
            Get (\<lambda>w.
              bind (video_setButtonState
                      (if lastKnownState w = ''video_on'' then ''video_off'' else ''video_on''))
                (\<lambda>_.
              Put (\<lambda>w'. w'\<lparr>lastKnownState :=
                            (if lastKnownState w = ''video_on'' then ''video_off''
                             else ''video_on'')\<rparr>)
                (Put (\<lambda>w'. w'\<lparr>timeouts := timeouts w' @ [800]\<rparr>) (Ret ())))))))
       (\<lambda>error. AwaitUnit (SetTitle ''Error'') (Ret ()))"

definition video_updateState :: "unit prog" where
  "video_updateState =
     try_catch
       (bind video_isZoomRunning (\<lambda>running.
          if \<not> running then
            AwaitUnit (SetTitle ''Zoom\<newline>Not Running'')
              (Put (\<lambda>w. w\<lparr>lastKnownState := ''unknown''\<rparr>) (Ret ()))
          else
            bind video_isInMeeting (\<lambda>inMeeting.
              if \<not> inMeeting then
                AwaitUnit (SetTitle ''Not in\<newline>Meeting'')
                  (Put (\<lambda>w. w\<lparr>lastKnownState := ''unknown''\<rparr>) (Ret ()))
              else
                bind audioMonitor_detectZoomVideoState (\<lambda>detectedState.
                  if detectedState \<noteq> ''unknown'' then
                    bind (video_setButtonState detectedState) (\<lambda>_.
                      Put (\<lambda>w. w\<lparr>lastKnownState := detectedState\<rparr>) (Ret ()))
                  else AwaitUnit (SetTitle ''Zoom\<newline>Meeting'') (Ret ())))))
       (\<lambda>error. AwaitUnit (SetTitle ''Error'') (Ret ()))"

section \<open>Interleaved invocations\<close>

text \<open>
  The event loop runs one invocation until it awaits, and may then start another handler or
  continue any suspended invocation whose awaited call has settled. \<open>run_sync\<close> runs a body
  to its next await, where the call is issued and the invocation is suspended.
\<close>

primrec run_sync :: "'a prog \<Rightarrow> world \<Rightarrow> world \<times> 'a prog option" where
  "run_sync (Ret x) w = (w, None)"
| "run_sync (Raise e) w = (w, None)"
| "run_sync (Get k) w = run_sync (k w) w"
| "run_sync (Put g p) w = run_sync p (g w)"
| "run_sync (AwaitProc c k) w = (issue c w, Some (AwaitProc c k))"
| "run_sync (AwaitUnit c p) w = (issue c w, Some (AwaitUnit c p))"

text \<open>What a suspended invocation continues with once its call has settled.\<close>

fun resume :: "'a prog \<Rightarrow> proc_result \<Rightarrow> 'a prog" where
  "resume (AwaitProc c k) r = k r"
| "resume (AwaitUnit c p) r = p"
| "resume p r = p"

datatype event =
    WillAppear
  | WillDisappear
  | KeyDown ZoomToggleSettings
  | IntervalFires nat  \<comment> \<open>the live interval with this handle fires\<close>
  | TimeoutFires nat  \<comment> \<open>the pending one-shot timer at this position fires\<close>
  | Settles nat proc_result  \<comment> \<open>the call of the suspended invocation at this position settles\<close>

definition start :: "unit prog \<Rightarrow> world \<times> unit prog list \<Rightarrow> world \<times> unit prog list" where
  "start p c =
     (case run_sync p (fst c) of
        (w', None) \<Rightarrow> (w', snd c)
      | (w', Some t) \<Rightarrow> (w', snd c @ [t]))"

fun step :: "ZoomToggleConfig \<Rightarrow> zoom_subclass \<Rightarrow> event
    \<Rightarrow> world \<times> unit prog list \<Rightarrow> world \<times> unit prog list" where
  "step cfg sub WillAppear c = start (onWillAppear cfg sub) c"
| "step cfg sub WillDisappear c = start onWillDisappear c"
| "step cfg sub (KeyDown settings) c = start (onKeyDown cfg sub settings) c"
| "step cfg sub (IntervalFires h) c =
     (if h \<in> fst ` set (intervals (fst c)) then start (periodicStateCheck sub) c else c)"
| "step cfg sub (TimeoutFires i) c =
     (if i < length (timeouts (fst c))
      then start (stateUpdateCallback cfg sub)
             ((fst c)\<lparr>timeouts := take i (timeouts (fst c)) @ drop (Suc i) (timeouts (fst c))\<rparr>,
              snd c)
      else c)"
| "step cfg sub (Settles i r) c =
     (if i < length (snd c)
      then (case run_sync (resume (snd c ! i) r) (fst c) of
              (w', None) \<Rightarrow> (w', take i (snd c) @ drop (Suc i) (snd c))
            | (w', Some t) \<Rightarrow> (w', (snd c)[i := t]))
      else c)"

fun run :: "ZoomToggleConfig \<Rightarrow> zoom_subclass \<Rightarrow> event list
    \<Rightarrow> world \<times> unit prog list \<Rightarrow> world \<times> unit prog list" where
  "run cfg sub [] c = c"
| "run cfg sub (e # es) c = run cfg sub es (step cfg sub e c)"

text \<open>A controller that has just been constructed, its key showing state 0 and no title.\<close>

definition initial_world :: world where
  "initial_world =
     \<lparr>isUpdating = False, stateCheckInterval = None, lastKnownState = ''unknown'',
      title = [], keyState = 0, intervals = [], timeouts = [], nextTimer = 0, trace = []\<rparr>"

section \<open>Vocabulary of the statements\<close>

text \<open>What \<open>isZoomRunning\<close> and \<open>isInMeeting\<close> make of the way their process ended.\<close>

definition reportsRunning :: "proc_result \<Rightarrow> bool" where
  "reportsRunning r = (case commandOutcome r of Inr out \<Rightarrow> length out > 0 | Inl e \<Rightarrow> False)"

definition reportsMeeting :: "proc_result \<Rightarrow> bool" where
  "reportsMeeting r = (case appleScriptOutcome r of Inr out \<Rightarrow> out = ''true'' | Inl e \<Rightarrow> False)"

text \<open>The script that one attempt of \<open>executeToggleAction\<close> runs.\<close>

definition toggleScript :: "ZoomToggleConfig \<Rightarrow> zoom_subclass \<Rightarrow> string \<Rightarrow> string \<Rightarrow> script" where
  "toggleScript cfg sub method shortcut =
     (if method = ''menubar'' then getMenubarScript sub (generateKeystrokeScript shortcut)
      else KeyboardToggle (activationDelay cfg) (generateKeystrokeScript shortcut))"

text \<open>
  The calls of \<open>n\<close> failed attempts in a row, the first of them made with \<open>attempt = a\<close>:
  the script each time, and between two attempts the delay \<open>d * attempt\<close> for the value
  \<open>attempt\<close> has after the increment.
\<close>

fun failedAttempts :: "script \<Rightarrow> nat \<Rightarrow> nat \<Rightarrow> nat \<Rightarrow> call list" where
  "failedAttempts sc d a 0 = []"
| "failedAttempts sc d a (Suc 0) = [Osascript sc]"
| "failedAttempts sc d a (Suc (Suc n)) =
     Osascript sc # Delay (d * (a + 1)) # failedAttempts sc d (a + 1) (Suc n)"


text \<open>The instance after \<open>cleanup()\<close>: the interval it held is cleared and forgotten.\<close>

definition cleaned :: "world \<Rightarrow> world" where
  "cleaned w =
     (case stateCheckInterval w of
        Some h \<Rightarrow> w\<lparr>intervals := filter (\<lambda>i. fst i \<noteq> h) (intervals w), stateCheckInterval := None\<rparr>
      | None \<Rightarrow> w)"


text \<open>
  The state that the detection functions return for the way their \<open>osascript\<close> process
  ended (proved below), and the key state that \<open>setButtonState\<close> selects for it.
\<close>

definition muteReading :: "proc_result \<Rightarrow> string" where
  "muteReading d =
     (if appleScriptOutcome d = Inr ''muted'' then ''muted''
      else if appleScriptOutcome d = Inr ''unmuted'' then ''unmuted''
      else ''unknown'')"

definition videoReading :: "proc_result \<Rightarrow> string" where
  "videoReading d =
     (if appleScriptOutcome d = Inr ''video_on'' then ''video_on''
      else if appleScriptOutcome d = Inr ''video_off'' then ''video_off''
      else ''unknown'')"

definition audioMonitor_videoReading :: "proc_result \<Rightarrow> string" where
  "audioMonitor_videoReading d =
     (case execSyncOutcome d of
        Inr out \<Rightarrow>
          if trim out = ''video_on'' then ''video_on''
          else if trim out = ''video_off'' then ''video_off''
          else ''unknown''
      | Inl e \<Rightarrow> ''unknown'')"

text \<open>What the stand-alone video action makes of its \<open>execSync\<close> checks.\<close>

definition video_reportsRunning :: "proc_result \<Rightarrow> bool" where
  "video_reportsRunning r =
     (case execSyncOutcome r of Inr out \<Rightarrow> length (trim out) > 0 | Inl e \<Rightarrow> False)"

definition video_reportsMeeting :: "proc_result \<Rightarrow> bool" where
  "video_reportsMeeting r =
     (case execSyncOutcome r of Inr out \<Rightarrow> trim out = ''true'' | Inl e \<Rightarrow> False)"

text \<open>The call a suspended invocation is waiting for.\<close>

fun awaited :: "'a prog \<Rightarrow> call option" where
  "awaited (AwaitProc c k) = Some c"
| "awaited (AwaitUnit c p) = Some c"
| "awaited p = None"

definition isDetection :: "call \<Rightarrow> bool" where
  "isDetection c = (c = Osascript MonitorDetectMute \<or> c = Osascript MonitorDetectVideo)"

definition awaitsDetection :: "'a prog \<Rightarrow> bool" where
  "awaitsDetection t = (case awaited t of Some c \<Rightarrow> isDetection c | None \<Rightarrow> False)"

section \<open>The discipline of the isUpdating flag\<close>

text \<open>
  What a synchronous write does to \<open>isUpdating\<close>, whatever the instance it is applied to.
\<close>

definition keeps :: "(world \<Rightarrow> world) \<Rightarrow> bool" where
  "keeps g = (\<forall>w. isUpdating (g w) = isUpdating w)"

definition acquires :: "(world \<Rightarrow> world) \<Rightarrow> bool" where
  "acquires g = (\<forall>w. isUpdating (g w))"

definition releases :: "(world \<Rightarrow> world) \<Rightarrow> bool" where
  "releases g = (\<forall>w. \<not> isUpdating (g w))"

text \<open>
  A body that never writes \<open>isUpdating\<close>; with \<open>b\<close> false it runs no detection script
  either.
\<close>

primrec quiet :: "bool \<Rightarrow> 'a prog \<Rightarrow> bool" where
  "quiet b (Ret x) = True"
| "quiet b (Raise e) = True"
| "quiet b (Get k) = (\<forall>w. quiet b (k w))"
| "quiet b (Put g p) = (keeps g \<and> quiet b p)"
| "quiet b (AwaitProc c k) = ((b \<or> \<not> isDetection c) \<and> (\<forall>r. quiet b (k r)))"
| "quiet b (AwaitUnit c p) = ((b \<or> \<not> isDetection c) \<and> quiet b p)"

text \<open>
  Where a body stands with respect to the flag: \<open>Inside\<close>, it has set the flag and not yet
  cleared it; \<open>Free\<close>, it has not, and has seen the flag clear since it last awaited;
  \<open>Outside\<close>, it has not, and knows nothing of the flag.
\<close>

datatype mode = Outside | Free | Inside

text \<open>
  \<open>guarded p m\<close>: from the standing \<open>m\<close> on, the body \<open>p\<close> sets the flag only when it has
  seen it clear without awaiting in between, clears it only when it has set it, does not
  end before it has cleared it, and runs a detection script only while it has it set.
\<close>

primrec guarded :: "'a prog \<Rightarrow> mode \<Rightarrow> bool" where
  "guarded (Ret x) m = (m \<noteq> Inside)"
| "guarded (Raise e) m = (m \<noteq> Inside)"
| "guarded (Get k) m =
     (\<forall>w. case m of
        Inside \<Rightarrow> isUpdating w \<longrightarrow> guarded (k w) Inside
      | Free \<Rightarrow> \<not> isUpdating w \<longrightarrow> guarded (k w) Free
      | Outside \<Rightarrow> guarded (k w) (if isUpdating w then Outside else Free))"
| "guarded (Put g p) m =
     (case m of
        Inside \<Rightarrow> (keeps g \<and> guarded p Inside) \<or> (releases g \<and> guarded p Free)
      | Free \<Rightarrow> (keeps g \<and> guarded p Free) \<or> (acquires g \<and> guarded p Inside)
      | Outside \<Rightarrow> keeps g \<and> guarded p Outside)"
| "guarded (AwaitProc c k) m =
     (case m of
        Inside \<Rightarrow> (\<forall>r. guarded (k r) Inside)
      | Free \<Rightarrow> \<not> isDetection c \<and> (\<forall>r. guarded (k r) Outside)
      | Outside \<Rightarrow> \<not> isDetection c \<and> (\<forall>r. guarded (k r) Outside))"
| "guarded (AwaitUnit c p) m =
     (case m of
        Inside \<Rightarrow> guarded p Inside
      | Free \<Rightarrow> \<not> isDetection c \<and> guarded p Outside
      | Outside \<Rightarrow> \<not> isDetection c \<and> guarded p Outside)"

text \<open>
  The invariant of the suspended invocations: each of them is \<open>Outside\<close> or \<open>Inside\<close>, and
  those that are not \<open>Outside\<close> are at most one, and none while the flag is clear.
\<close>

definition holders :: "unit prog list \<Rightarrow> nat" where
  "holders ts = length (filter (\<lambda>t. \<not> guarded t Outside) ts)"

definition flag_inv :: "world \<times> unit prog list \<Rightarrow> bool" where
  "flag_inv c =
     ((\<forall>t \<in> set (snd c). guarded t Outside \<or> guarded t Inside)
      \<and> holders (snd c) \<le> (if isUpdating (fst c) then 1 else 0))"

text \<open>
  What a body can have become when it runs: itself, and whatever follows a read, a write
  or an await of something it can have become.
\<close>

inductive_set reached :: "'a prog \<Rightarrow> 'a prog set" for p :: "'a prog" where
  here: "p \<in> reached p"
| read: "Get k \<in> reached p \<Longrightarrow> k w \<in> reached p"
| written: "Put g q \<in> reached p \<Longrightarrow> q \<in> reached p"
| settled: "AwaitProc c k \<in> reached p \<Longrightarrow> k r \<in> reached p"
| resolved: "AwaitUnit c q \<in> reached p \<Longrightarrow> q \<in> reached p"

text \<open>
  A suspended invocation that is in a state update, past the guard: it awaits a call
  from within \<open>updateState_body\<close>. The body runs either in \<open>onWillAppear\<close> or in the
  callback of \<open>setTimeout\<close>, which go on with \<open>startPeriodicStateCheck\<close> after it, or in the
  callback of \<open>setInterval\<close>, inside its \<open>try\<close>.
\<close>

definition inStateUpdate :: "ZoomToggleConfig \<Rightarrow> zoom_subclass \<Rightarrow> unit prog \<Rightarrow> bool" where
  "inStateUpdate cfg sub t =
     (awaited t \<noteq> None
      \<and> (t \<in> reached (bind (updateState_body sub) (\<lambda>_. startPeriodicStateCheck cfg))
         \<or> t \<in> reached (try_catch (updateState_body sub) (\<lambda>error. Ret ()))))"

text \<open>
  \<open>ending p\<close>: the body \<open>p\<close> ends without awaiting and without writing the flag.
  \<open>committed p\<close>: the body \<open>p\<close> has the flag set, keeps it set at every await, and clears
  it before it ends without awaiting again.
\<close>

primrec ending :: "'a prog \<Rightarrow> bool" where
  "ending (Ret x) = True"
| "ending (Raise e) = True"
| "ending (Get k) = (\<forall>w. ending (k w))"
| "ending (Put g p) = (keeps g \<and> ending p)"
| "ending (AwaitProc c k) = False"
| "ending (AwaitUnit c p) = False"

primrec committed :: "'a prog \<Rightarrow> bool" where
  "committed (Ret x) = False"
| "committed (Raise e) = False"
| "committed (Get k) = (\<forall>w. committed (k w))"
| "committed (Put g p) = ((keeps g \<and> committed p) \<or> (releases g \<and> ending p))"
| "committed (AwaitProc c k) = (\<forall>r. committed (k r))"
| "committed (AwaitUnit c p) = committed p"

text \<open>
  \<open>blind p\<close>: the body \<open>p\<close> neither reads nor writes \<open>isUpdating\<close>: what it does after a
  read does not depend on the flag, and each write leaves the flag as it finds it.
\<close>

primrec blind :: "'a prog \<Rightarrow> bool" where
  "blind (Ret x) = True"
| "blind (Raise e) = True"
| "blind (Get k) = (\<forall>w. (\<forall>b. k (w\<lparr>isUpdating := b\<rparr>) = k w) \<and> blind (k w))"
| "blind (Put g p) = ((\<forall>w b. g (w\<lparr>isUpdating := b\<rparr>) = (g w)\<lparr>isUpdating := b\<rparr>) \<and> blind p)"
| "blind (AwaitProc c k) = (\<forall>r. blind (k r))"
| "blind (AwaitUnit c p) = blind p"

section \<open>Running a body to its end\<close>

lemma exec_bind:
  "exec (bind p f) w rs =
     (case exec p w rs of
        None \<Rightarrow> None
      | Some (Inl e, w', rs') \<Rightarrow> Some (Inl e, w', rs')
      | Some (Inr x, w', rs') \<Rightarrow> exec (f x) w' rs')"
  by (induction p arbitrary: w rs) (auto split: list.splits)

lemma exec_try_catch:
  "exec (try_catch p h) w rs =
     (case exec p w rs of
        None \<Rightarrow> None
      | Some (Inl e, w', rs') \<Rightarrow> exec (h e) w' rs'
      | Some (Inr x, w', rs') \<Rightarrow> Some (Inr x, w', rs'))"
  by (induction p arbitrary: w rs) (auto split: list.splits)

lemma exec_try_finally:
  "exec (try_finally p fin) w rs =
     (case exec p w rs of
        None \<Rightarrow> None
      | Some (res, w', rs') \<Rightarrow>
          (case exec fin w' rs' of
             None \<Rightarrow> None
           | Some (Inl e, w'', rs'') \<Rightarrow> Some (Inl e, w'', rs'')
           | Some (Inr u, w'', rs'') \<Rightarrow> Some (res, w'', rs'')))"
  by (induction p arbitrary: w rs)
     (auto simp: exec_bind split: list.splits option.splits sum.splits)

lemma exec_executeAppleScript:
  "exec (executeAppleScript s) w (r # rs) = Some (appleScriptOutcome r, issue (Osascript s) w, rs)"
  by (simp add: executeAppleScript_def settle_def split: sum.splits)

lemma exec_executeCommand:
  "exec (executeCommand c args) w (r # rs) = Some (commandOutcome r, issue (Spawn c args) w, rs)"
  by (simp add: executeCommand_def settle_def split: sum.splits)

lemma exec_isZoomRunning:
  "exec isZoomRunning w (r # rs) =
     Some (Inr (reportsRunning r), issue (Spawn ''pgrep'' [''-f'', ''zoom.us'']) w, rs)"
  by (simp add: isZoomRunning_def exec_try_catch exec_bind exec_executeCommand reportsRunning_def
      split: sum.splits)

lemma exec_isInMeeting:
  "exec isInMeeting w (r # rs) = Some (Inr (reportsMeeting r), issue (Osascript CheckMeeting) w, rs)"
  by (simp add: isInMeeting_def exec_try_catch exec_bind exec_executeAppleScript reportsMeeting_def
      split: sum.splits)

lemma exec_cleanup:
  "exec cleanup w rs = Some (Inr (), cleaned w, rs)"
  by (simp add: cleanup_def cleaned_def split: option.splits)

lemma exec_validateKeyboardShortcut:
  "shortcut \<noteq> [] \<Longrightarrow> exec (validateKeyboardShortcut shortcut) w rs = Some (Inr shortcut, w, rs)"
  by (cases "toLowerCase shortcut") (simp_all add: validateKeyboardShortcut_def split: list.splits)

subsection \<open>The retry loop\<close>

lemma exec_loop:
  "exec (executeToggleAction_loop cfg sub method shortcut a) w rs =
     (if a < maxRetryAttempts cfg then
        (case rs of
           [] \<Rightarrow> None
         | r # rs' \<Rightarrow>
             (case appleScriptOutcome r of
                Inr v \<Rightarrow> Some (Inr (), issue (Osascript (toggleScript cfg sub method shortcut)) w, rs')
              | Inl e \<Rightarrow>
                  if a + 1 \<ge> maxRetryAttempts cfg
                  then Some (Inl e, issue (Osascript (toggleScript cfg sub method shortcut)) w, rs')
                  else exec (executeToggleAction_loop cfg sub method shortcut (a + 1))
                         (issue (Delay (retryDelay cfg * (a + 1)))
                            (issue (Osascript (toggleScript cfg sub method shortcut)) w)) rs'))
      else Some (Inr (), w, rs))"
  apply (subst executeToggleAction_loop.simps)
  apply (cases rs)
   apply (simp add: exec_try_catch exec_bind executeAppleScript_def toggleScript_def)
  apply (simp add: exec_try_catch exec_bind exec_executeAppleScript toggleScript_def delay_def
      split: sum.splits)
  done

lemma exec_loop_all_fail:
  "a + n = maxRetryAttempts cfg \<Longrightarrow> n > 0 \<Longrightarrow> length fs = n
   \<Longrightarrow> \<forall>f \<in> set fs. isl (appleScriptOutcome f)
   \<Longrightarrow> exec (executeToggleAction_loop cfg sub method shortcut a) w (fs @ rs) =
       Some (Inl (projl (appleScriptOutcome (last fs))),
             w\<lparr>trace := trace w @
                failedAttempts (toggleScript cfg sub method shortcut) (retryDelay cfg) a n\<rparr>,
             rs)"
proof (induction n arbitrary: a fs w)
  case 0
  then show ?case by simp
next
  case (Suc n)
  then obtain f fs' where fs: "fs = f # fs'" and len: "length fs' = n"
    by (cases fs) auto
  from Suc.prems fs obtain e where e: "appleScriptOutcome f = Inl e"
    by (cases "appleScriptOutcome f") auto
  show ?case
  proof (cases n)
    case 0
    with Suc.prems fs len e show ?thesis
      by (subst exec_loop) simp
  next
    case (Suc m)
    have step: "exec (executeToggleAction_loop cfg sub method shortcut (a + 1))
                  (issue (Delay (retryDelay cfg * (a + 1)))
                     (issue (Osascript (toggleScript cfg sub method shortcut)) w)) (fs' @ rs) =
                Some (Inl (projl (appleScriptOutcome (last fs'))),
                  (issue (Delay (retryDelay cfg * (a + 1)))
                     (issue (Osascript (toggleScript cfg sub method shortcut)) w))
                  \<lparr>trace := trace (issue (Delay (retryDelay cfg * (a + 1)))
                     (issue (Osascript (toggleScript cfg sub method shortcut)) w)) @
                     failedAttempts (toggleScript cfg sub method shortcut) (retryDelay cfg) (a + 1) n\<rparr>,
                  rs)"
      using Suc.prems fs len Suc by (intro Suc.IH) auto
    from Suc len have "fs' \<noteq> []" by auto
    with Suc.prems fs len e Suc step show ?thesis
      by (subst exec_loop) simp
  qed
qed

section \<open>Retry and exhaustion\<close>

text \<open>
  C1. Zoom is found running, the toggle script fails on the first and the second attempt
  and succeeds on the third, with \<open>maxRetryAttempts = 3\<close> and \<open>retryDelay = 200\<close>. Then the
  key press issues, after the process check, exactly three runs of the toggle script, with a
  delay of 200 before the second and of 400 before the third and nothing after the third
  (whatever further process results \<open>rs\<close> would be available stay unused). The handler
  returns normally, the title and the state of the key are as before (no error title), and
  the one-shot state update is armed.
\<close>

theorem C1_retry_linear_backoff:
  assumes "maxRetryAttempts cfg = 3" and "retryDelay cfg = 200"
    and "reportsRunning r0"
    and "or_default (keyboardShortcut settings) (getDefaultShortcut sub) \<noteq> []"
    and "isl (appleScriptOutcome f1)" and "isl (appleScriptOutcome f2)"
    and "\<not> isl (appleScriptOutcome s3)"
  shows "exec (onKeyDown cfg sub settings) w (r0 # f1 # f2 # s3 # rs) =
     Some (Inr (),
       (cleaned w)
         \<lparr>timeouts := timeouts w @ [stateUpdateDelay cfg],
          trace := trace w @
            [Spawn ''pgrep'' [''-f'', ''zoom.us''],
             Osascript (toggleScript cfg sub (or_default (controlMethod settings) ''keyboard'')
                (or_default (keyboardShortcut settings) (getDefaultShortcut sub))),
             Delay 200,
             Osascript (toggleScript cfg sub (or_default (controlMethod settings) ''keyboard'')
                (or_default (keyboardShortcut settings) (getDefaultShortcut sub))),
             Delay 400,
             Osascript (toggleScript cfg sub (or_default (controlMethod settings) ''keyboard'')
                (or_default (keyboardShortcut settings) (getDefaultShortcut sub)))]\<rparr>,
       rs)"
proof -
  from assms(5) obtain e1 where e1: "appleScriptOutcome f1 = Inl e1"
    by (cases "appleScriptOutcome f1") auto
  from assms(6) obtain e2 where e2: "appleScriptOutcome f2 = Inl e2"
    by (cases "appleScriptOutcome f2") auto
  from assms(7) obtain v3 where v3: "appleScriptOutcome s3 = Inr v3"
    by (cases "appleScriptOutcome s3") auto
  show ?thesis
    using assms(1-4) e1 e2 v3
    by (simp add: onKeyDown_def exec_try_catch exec_bind exec_cleanup exec_isZoomRunning
        exec_validateKeyboardShortcut executeToggleAction_def exec_loop cleaned_def
        split: option.splits)
qed

theorem C1_retry_linear_backoff_witness:
  "maxRetryAttempts config = 3 \<and> retryDelay config = 200
   \<and> reportsRunning (Closed (Some 0) ''4242'' [])
   \<and> or_default (keyboardShortcut \<lparr>controlMethod = None, keyboardShortcut = None\<rparr>)
        (getDefaultShortcut ZoomMuteToggle) \<noteq> []
   \<and> isl (appleScriptOutcome (Closed (Some 1) [] ''execution error''))
   \<and> isl (appleScriptOutcome (SpawnError ''spawn osascript EAGAIN''))
   \<and> \<not> isl (appleScriptOutcome (Closed (Some 0) [] []))
   \<and> exec (onKeyDown config ZoomMuteToggle \<lparr>controlMethod = None, keyboardShortcut = None\<rparr>)
        initial_world
        [Closed (Some 0) ''4242'' [], Closed (Some 1) [] ''execution error'',
         SpawnError ''spawn osascript EAGAIN'', Closed (Some 0) [] []] =
      Some (Inr (),
        initial_world
          \<lparr>timeouts := [1000],
           trace :=
             [Spawn ''pgrep'' [''-f'', ''zoom.us''],
              Osascript (KeyboardToggle 100 (generateKeystrokeScript ''cmd+shift+option+a'')),
              Delay 200,
              Osascript (KeyboardToggle 100 (generateKeystrokeScript ''cmd+shift+option+a'')),
              Delay 400,
              Osascript (KeyboardToggle 100 (generateKeystrokeScript ''cmd+shift+option+a''))]\<rparr>,
        [])"
proof -
  have h1: "maxRetryAttempts config = 3" and h2: "retryDelay config = 200"
    by (simp_all add: config_def)
  have h3: "reportsRunning (Closed (Some 0) ''4242'' [])"
    by (simp add: reportsRunning_def trim_def isWhiteSpace_def)
  have h4: "or_default (keyboardShortcut \<lparr>controlMethod = None, keyboardShortcut = None\<rparr>)
        (getDefaultShortcut ZoomMuteToggle) \<noteq> []"
    by (simp add: or_default_def ZoomMuteToggle_def)
  have h5: "isl (appleScriptOutcome (Closed (Some 1) [] ''execution error''))"
    and h6: "isl (appleScriptOutcome (SpawnError ''spawn osascript EAGAIN''))"
    and h7: "\<not> isl (appleScriptOutcome (Closed (Some 0) [] []))"
    by simp_all
  note C1_retry_linear_backoff [OF h1 h2 h3 h4 h5 h6 h7, of initial_world "[]"]
  then show ?thesis
    using h3
    by (simp add: config_def or_default_def ZoomMuteToggle_def toggleScript_def cleaned_def
        initial_world_def)
qed

text \<open>
  C2. Zoom is found running and the toggle script fails on every one of the
  \<open>maxRetryAttempts\<close> attempts (\<open>fs\<close> lists how they ended). Then \<open>executeToggleAction\<close>
  throws the error of the last attempt, after the attempts and the delays between them and
  nothing else. The key press handler catches it: it returns normally with the title
  \<open>Error\<close> on the key, the state of the key as it was before the press, and no one-shot
  state update armed; the calls it issued are the process check, the failed attempts and
  the title.
\<close>

theorem C2_exhaustion:
  assumes "reportsRunning r0"
    and "or_default (keyboardShortcut settings) (getDefaultShortcut sub) \<noteq> []"
    and "0 < maxRetryAttempts cfg" and "length fs = maxRetryAttempts cfg"
    and "\<forall>f \<in> set fs. isl (appleScriptOutcome f)"
  shows "exec (executeToggleAction cfg sub method shortcut) w (fs @ rs) =
           Some (Inl (projl (appleScriptOutcome (last fs))),
                 w\<lparr>trace := trace w @ failedAttempts (toggleScript cfg sub method shortcut)
                                        (retryDelay cfg) 0 (maxRetryAttempts cfg)\<rparr>,
                 rs)
     \<and> (\<exists>w'. exec (onKeyDown cfg sub settings) w (r0 # fs @ rs) = Some (Inr (), w', rs)
           \<and> title w' = ''Error''
           \<and> keyState w' = keyState w
           \<and> timeouts w' = timeouts w
           \<and> trace w' = trace w @ [Spawn ''pgrep'' [''-f'', ''zoom.us'']]
                @ failedAttempts
                    (toggleScript cfg sub (or_default (controlMethod settings) ''keyboard'')
                       (or_default (keyboardShortcut settings) (getDefaultShortcut sub)))
                    (retryDelay cfg) 0 (maxRetryAttempts cfg)
                @ [SetTitle ''Error''])"
proof -
  have loop: "exec (executeToggleAction cfg sub m s) v (fs @ rs) =
           Some (Inl (projl (appleScriptOutcome (last fs))),
                 v\<lparr>trace := trace v @ failedAttempts (toggleScript cfg sub m s)
                                        (retryDelay cfg) 0 (maxRetryAttempts cfg)\<rparr>,
                 rs)" for m s v
    unfolding executeToggleAction_def
    using assms(3-5) by (intro exec_loop_all_fail) auto
  have "keyState (cleaned w) = keyState w" "timeouts (cleaned w) = timeouts w"
    "trace (cleaned w) = trace w"
    by (simp_all add: cleaned_def split: option.splits)
  then show ?thesis
    using assms(1,2) loop
    by (simp add: onKeyDown_def exec_try_catch exec_bind exec_cleanup exec_isZoomRunning
        exec_validateKeyboardShortcut)
qed

theorem C2_exhaustion_witness:
  "reportsRunning (Closed (Some 0) ''4242'' [])
   \<and> or_default (keyboardShortcut \<lparr>controlMethod = Some ''menubar'', keyboardShortcut = Some ''cmd+shift+a''\<rparr>)
        (getDefaultShortcut ZoomMuteToggle) \<noteq> []
   \<and> 0 < maxRetryAttempts config
   \<and> length [Closed (Some 1) [] ''execution error'', SpawnError ''spawn osascript EAGAIN'',
              Closed None [] []] = maxRetryAttempts config
   \<and> isl (appleScriptOutcome (Closed (Some 1) [] ''execution error''))
   \<and> isl (appleScriptOutcome (SpawnError ''spawn osascript EAGAIN''))
   \<and> isl (appleScriptOutcome (Closed None [] []))
   \<and> exec (executeToggleAction config ZoomMuteToggle ''menubar'' ''cmd+shift+a'') initial_world
        [Closed (Some 1) [] ''execution error'', SpawnError ''spawn osascript EAGAIN'',
         Closed None [] []] =
      Some (Inl (AppleScriptFailed None []),
            initial_world
              \<lparr>trace :=
                 [Osascript (MenubarMute (generateKeystrokeScript ''cmd+shift+a'')), Delay 200,
                  Osascript (MenubarMute (generateKeystrokeScript ''cmd+shift+a'')), Delay 400,
                  Osascript (MenubarMute (generateKeystrokeScript ''cmd+shift+a''))]\<rparr>,
            [])
   \<and> (\<exists>w'. exec (onKeyDown config ZoomMuteToggle
                  \<lparr>controlMethod = Some ''menubar'', keyboardShortcut = Some ''cmd+shift+a''\<rparr>)
               initial_world
               [Closed (Some 0) ''4242'' [], Closed (Some 1) [] ''execution error'',
                SpawnError ''spawn osascript EAGAIN'', Closed None [] []] = Some (Inr (), w', [])
          \<and> title w' = ''Error''
          \<and> keyState w' = 0
          \<and> timeouts w' = []
          \<and> trace w' =
               [Spawn ''pgrep'' [''-f'', ''zoom.us''],
                Osascript (MenubarMute (generateKeystrokeScript ''cmd+shift+a'')), Delay 200,
                Osascript (MenubarMute (generateKeystrokeScript ''cmd+shift+a'')), Delay 400,
                Osascript (MenubarMute (generateKeystrokeScript ''cmd+shift+a'')),
                SetTitle ''Error''])"
proof -
  have h1: "reportsRunning (Closed (Some 0) ''4242'' [])"
    by (simp add: reportsRunning_def trim_def isWhiteSpace_def)
  have h2: "or_default (keyboardShortcut \<lparr>controlMethod = Some ''menubar'', keyboardShortcut = Some ''cmd+shift+a''\<rparr>)
        (getDefaultShortcut ZoomMuteToggle) \<noteq> []"
    by (simp add: or_default_def)
  have h3: "0 < maxRetryAttempts config"
    by (simp add: config_def)
  have h4: "length [Closed (Some 1) [] ''execution error'', SpawnError ''spawn osascript EAGAIN'',
              Closed None [] []] = maxRetryAttempts config"
    by (simp add: config_def)
  have h5: "\<forall>f \<in> set [Closed (Some 1) [] ''execution error'', SpawnError ''spawn osascript EAGAIN'',
                   Closed None [] []]. isl (appleScriptOutcome f)"
    by simp
  have three: "failedAttempts sc d 0 3 = [Osascript sc, Delay d, Osascript sc, Delay (d * 2), Osascript sc]"
    for sc d
    by (simp add: eval_nat_numeral)
  note C2_exhaustion [OF h1 h2 h3 h4 h5, of "''menubar''" "''cmd+shift+a''" initial_world "[]"]
  then show ?thesis
    using h1
    by (simp add: config_def or_default_def ZoomMuteToggle_def toggleScript_def initial_world_def
        three trim_def)
qed

section \<open>Zoom not running\<close>

lemma exec_updateState_held:
  "isUpdating w \<Longrightarrow> exec (updateState sub) w rs = Some (Inr (), w, rs)"
  by (simp add: updateState_def updateState_body_def)

lemma exec_updateState_absent:
  "\<not> isUpdating w \<Longrightarrow> \<not> reportsRunning r0 \<Longrightarrow>
   exec (updateState sub) w (r0 # rs) =
     Some (Inr (),
           w\<lparr>isUpdating := False, title := ''Zoom\<newline>Not Running'',
             trace := trace w @ [Spawn ''pgrep'' [''-f'', ''zoom.us''],
                                 SetTitle ''Zoom\<newline>Not Running'']\<rparr>,
           rs)"
  by (simp add: updateState_def updateState_body_def exec_try_finally exec_try_catch exec_bind exec_isZoomRunning)

lemma exec_periodicStateCheck_absent:
  "\<not> reportsRunning r0 \<Longrightarrow>
   exec (periodicStateCheck sub) w (r0 # rs) =
     Some (Inr (), issue (Spawn ''pgrep'' [''-f'', ''zoom.us'']) w, rs)"
  by (simp add: periodicStateCheck_def exec_try_catch exec_bind exec_isZoomRunning)

lemma exec_startPeriodicStateCheck:
  "exec (startPeriodicStateCheck cfg) w rs =
     Some (Inr (),
           (cleaned w)\<lparr>intervals := intervals (cleaned w) @ [(nextTimer w, stateCheckInterval_ms cfg)],
                       stateCheckInterval := Some (nextTimer w),
                       nextTimer := Suc (nextTimer w)\<rparr>,
           rs)"
  by (simp add: startPeriodicStateCheck_def exec_bind exec_cleanup cleaned_def split: option.splits)

text \<open>
  C4. When the process check of a key press reports that Zoom is not running, the handler
  issues that check and the title \<open>Zoom / Not Running\<close> and nothing else: no detection
  script and no toggle script is run. The same holds for a state update that gets past its
  guard and whose process check reports that Zoom is not running.
\<close>

theorem C4_not_running_no_probe_no_toggle:
  assumes "\<not> reportsRunning r0"
  shows "(\<exists>w'. exec (onKeyDown cfg sub settings) w (r0 # rs) = Some (Inr (), w', rs)
            \<and> trace w' = trace w @ [Spawn ''pgrep'' [''-f'', ''zoom.us''],
                                     SetTitle ''Zoom\<newline>Not Running'']
            \<and> title w' = ''Zoom\<newline>Not Running'')
       \<and> (\<not> isUpdating w \<longrightarrow>
            (\<exists>w'. exec (updateState sub) w (r0 # rs) = Some (Inr (), w', rs)
               \<and> trace w' = trace w @ [Spawn ''pgrep'' [''-f'', ''zoom.us''],
                                        SetTitle ''Zoom\<newline>Not Running'']
               \<and> title w' = ''Zoom\<newline>Not Running''))"
proof -
  have "trace (cleaned w) = trace w"
    by (simp add: cleaned_def split: option.splits)
  with assms show ?thesis
    by (simp add: onKeyDown_def exec_try_catch exec_bind exec_cleanup exec_isZoomRunning
        exec_updateState_absent)
qed

theorem C4_not_running_no_probe_no_toggle_witness:
  "\<not> reportsRunning (Closed (Some 1) [] [])
   \<and> (\<exists>w'. exec (onKeyDown config ZoomMuteToggle \<lparr>controlMethod = None, keyboardShortcut = None\<rparr>)
               initial_world [Closed (Some 1) [] []] = Some (Inr (), w', [])
          \<and> trace w' = [Spawn ''pgrep'' [''-f'', ''zoom.us''], SetTitle ''Zoom\<newline>Not Running'']
          \<and> title w' = ''Zoom\<newline>Not Running'')
   \<and> \<not> isUpdating initial_world
   \<and> (\<exists>w'. exec (updateState ZoomMuteToggle) initial_world [Closed (Some 1) [] []] =
               Some (Inr (), w', [])
          \<and> trace w' = [Spawn ''pgrep'' [''-f'', ''zoom.us''], SetTitle ''Zoom\<newline>Not Running'']
          \<and> title w' = ''Zoom\<newline>Not Running'')"
proof -
  have h: "\<not> reportsRunning (Closed (Some 1) [] [])"
    by (simp add: reportsRunning_def)
  have u: "\<not> isUpdating initial_world" and t: "trace initial_world = []"
    by (simp_all add: initial_world_def)
  from C4_not_running_no_probe_no_toggle [OF h, of config ZoomMuteToggle
      "\<lparr>controlMethod = None, keyboardShortcut = None\<rparr>" initial_world "[]"]
  show ?thesis
    using h u t by simp
qed

text \<open>
  C5 as stated fails: the controller appears, the process check exits with code 1 (no
  Zoom process), the key shows \<open>Zoom / Not Running\<close>, and the periodic check is started all
  the same: an interval of 1000 ms is live and its handle is stored.
\<close>

theorem C5_counterexample:
  "exec (onWillAppear config ZoomMuteToggle) initial_world [Closed (Some 1) [] []] =
     Some (Inr (),
           \<lparr>isUpdating = False, stateCheckInterval = Some 0, lastKnownState = ''unknown'',
            title = ''Zoom\<newline>Not Running'', keyState = 0, intervals = [(0, 1000)],
            timeouts = [], nextTimer = 1,
            trace = [Spawn ''pgrep'' [''-f'', ''zoom.us''], SetTitle ''Zoom\<newline>Not Running'']\<rparr>,
           [])"
  by (simp add: onWillAppear_def exec_bind exec_updateState_absent exec_startPeriodicStateCheck
      initial_world_def reportsRunning_def cleaned_def config_def)

text \<open>
  C5, amended. When the controller appears (no state update in flight) and the process
  check reports that Zoom is not running, the key shows \<open>Zoom / Not Running\<close>, no detection
  is made, and the periodic check is started: a new interval with the configured period is
  live and its handle is stored. A tick of the periodic check whose process check reports
  that Zoom is not running issues that check and does nothing else.
\<close>

theorem C5_appear_not_running:
  assumes "\<not> reportsRunning r0" and "\<not> isUpdating w"
  shows "(\<exists>w'. exec (onWillAppear cfg sub) w (r0 # rs) = Some (Inr (), w', rs)
            \<and> title w' = ''Zoom\<newline>Not Running''
            \<and> trace w' = trace w @ [Spawn ''pgrep'' [''-f'', ''zoom.us''],
                                     SetTitle ''Zoom\<newline>Not Running'']
            \<and> stateCheckInterval w' = Some (nextTimer w)
            \<and> (nextTimer w, stateCheckInterval_ms cfg) \<in> set (intervals w'))
       \<and> exec (periodicStateCheck sub) v (r0 # rs) =
           Some (Inr (), issue (Spawn ''pgrep'' [''-f'', ''zoom.us'']) v, rs)"
  using assms
  by (simp add: onWillAppear_def exec_bind exec_updateState_absent exec_startPeriodicStateCheck
      exec_periodicStateCheck_absent cleaned_def split: option.splits)

theorem C5_appear_not_running_witness:
  "\<not> reportsRunning (SpawnError ''spawn pgrep ENOENT'') \<and> \<not> isUpdating initial_world
   \<and> (\<exists>w'. exec (onWillAppear config ZoomVideoToggle) initial_world
               [SpawnError ''spawn pgrep ENOENT''] = Some (Inr (), w', [])
          \<and> title w' = ''Zoom\<newline>Not Running''
          \<and> trace w' = [Spawn ''pgrep'' [''-f'', ''zoom.us''], SetTitle ''Zoom\<newline>Not Running'']
          \<and> stateCheckInterval w' = Some 0
          \<and> (0, 1000) \<in> set (intervals w'))
   \<and> exec (periodicStateCheck ZoomVideoToggle) initial_world [SpawnError ''spawn pgrep ENOENT''] =
        Some (Inr (), initial_world\<lparr>trace := [Spawn ''pgrep'' [''-f'', ''zoom.us'']]\<rparr>, [])"
proof -
  have h: "\<not> reportsRunning (SpawnError ''spawn pgrep ENOENT'')"
    by (simp add: reportsRunning_def)
  have u: "\<not> isUpdating initial_world"
    by (simp add: initial_world_def)
  from C5_appear_not_running [OF h u, of config ZoomVideoToggle "[]" initial_world]
  show ?thesis
    using h u by (simp add: initial_world_def config_def)
qed

section \<open>The detector\<close>

lemma exec_detectZoomMuteState:
  "exec detectZoomMuteState w (d # rs) =
     Some (Inr (muteReading d), issue (Osascript MonitorDetectMute) w, rs)"
  by (cases "appleScriptOutcome d")
     (auto simp: detectZoomMuteState_def exec_try_catch exec_bind exec_executeAppleScript
        muteReading_def)

lemma exec_detectZoomVideoState:
  "exec detectZoomVideoState w (d # rs) =
     Some (Inr (videoReading d), issue (Osascript MonitorDetectVideo) w, rs)"
  by (cases "appleScriptOutcome d")
     (auto simp: detectZoomVideoState_def exec_try_catch exec_bind exec_executeAppleScript
        videoReading_def)

lemma exec_audioMonitor_detectZoomVideoState:
  "exec audioMonitor_detectZoomVideoState w (d # rs) =
     Some (Inr (audioMonitor_videoReading d),
           issue (ExecSyncOsascript AudioMonitorDetectVideo) w, rs)"
  by (cases "execSyncOutcome d")
     (auto simp: audioMonitor_detectZoomVideoState_def exec_try_catch exec_bind execSync_def
        settle_def audioMonitor_videoReading_def)

text \<open>
  C8 as stated fails. A probe is started and its \<open>osascript\<close> process does not end: the
  script has been issued, the invocation is suspended on it, and no value has been
  returned. Nothing in the code ends the wait (the process is spawned without a
  timeout), so the probe returns only when the process closes or fails to start.
\<close>

theorem C8_counterexample:
  "exec detectZoomMuteState initial_world [] = None
   \<and> exec getAudioState initial_world [] = None
   \<and> fst (run_sync detectZoomMuteState initial_world) =
       initial_world\<lparr>trace := [Osascript MonitorDetectMute]\<rparr>
   \<and> map_option awaited (snd (run_sync detectZoomMuteState initial_world)) =
       Some (Some (Osascript MonitorDetectMute))"
  by (simp add: detectZoomMuteState_def getAudioState_def executeAppleScript_def exec_bind
      exec_try_catch initial_world_def)

text \<open>
  C8, amended. Whenever the \<open>osascript\<close> process of a probe ends, however it ends,
  \<open>detectZoomMuteState\<close> returns a value and does not throw, and the value is \<open>muted\<close>,
  \<open>unmuted\<close> or \<open>unknown\<close>; \<open>getAudioState\<close> pairs \<open>unknown\<close> with the confidence \<open>low\<close>
  and the other two with \<open>high\<close>. A process that could not be started, a process that
  closed with another exit code than 0 or with none (whatever it printed), and a process
  that closed with exit code 0 and an output that, trimmed, is neither \<open>muted\<close> nor
  \<open>unmuted\<close> all give \<open>unknown\<close> with \<open>low\<close>; exit code 0 with the trimmed output \<open>muted\<close>
  or \<open>unmuted\<close> gives that state with \<open>high\<close>. The same holds for \<open>detectZoomVideoState\<close>
  and \<open>getVideoState\<close> with \<open>video_on\<close> and \<open>video_off\<close>.
\<close>

theorem C8_probe_that_ends_returns:
  "(\<exists>v. exec detectZoomMuteState w (d # rs) =
            Some (Inr v, issue (Osascript MonitorDetectMute) w, rs)
         \<and> exec getAudioState w (d # rs) =
            Some (Inr (v, if v = ''unknown'' then ''low'' else ''high''),
                  issue (Osascript MonitorDetectMute) w, rs)
         \<and> (v = ''muted'' \<or> v = ''unmuted'' \<or> v = ''unknown''))
   \<and> exec getAudioState w (SpawnError msg # rs) =
        Some (Inr (''unknown'', ''low''), issue (Osascript MonitorDetectMute) w, rs)
   \<and> (code \<noteq> Some 0 \<longrightarrow>
        exec getAudioState w (Closed code out err # rs) =
          Some (Inr (''unknown'', ''low''), issue (Osascript MonitorDetectMute) w, rs))
   \<and> (trim out \<noteq> ''muted'' \<and> trim out \<noteq> ''unmuted'' \<longrightarrow>
        exec getAudioState w (Closed (Some 0) out err # rs) =
          Some (Inr (''unknown'', ''low''), issue (Osascript MonitorDetectMute) w, rs))
   \<and> (trim out = ''muted'' \<or> trim out = ''unmuted'' \<longrightarrow>
        exec getAudioState w (Closed (Some 0) out err # rs) =
          Some (Inr (trim out, ''high''), issue (Osascript MonitorDetectMute) w, rs))
   \<and> (\<exists>v. exec detectZoomVideoState w (d # rs) =
            Some (Inr v, issue (Osascript MonitorDetectVideo) w, rs)
         \<and> exec getVideoState w (d # rs) =
            Some (Inr (v, if v = ''unknown'' then ''low'' else ''high''),
                  issue (Osascript MonitorDetectVideo) w, rs)
         \<and> (v = ''video_on'' \<or> v = ''video_off'' \<or> v = ''unknown''))
   \<and> exec getVideoState w (SpawnError msg # rs) =
        Some (Inr (''unknown'', ''low''), issue (Osascript MonitorDetectVideo) w, rs)
   \<and> (code \<noteq> Some 0 \<longrightarrow>
        exec getVideoState w (Closed code out err # rs) =
          Some (Inr (''unknown'', ''low''), issue (Osascript MonitorDetectVideo) w, rs))
   \<and> (trim out \<noteq> ''video_on'' \<and> trim out \<noteq> ''video_off'' \<longrightarrow>
        exec getVideoState w (Closed (Some 0) out err # rs) =
          Some (Inr (''unknown'', ''low''), issue (Osascript MonitorDetectVideo) w, rs))
   \<and> (trim out = ''video_on'' \<or> trim out = ''video_off'' \<longrightarrow>
        exec getVideoState w (Closed (Some 0) out err # rs) =
          Some (Inr (trim out, ''high''), issue (Osascript MonitorDetectVideo) w, rs))"
  by (auto simp: exec_detectZoomMuteState exec_detectZoomVideoState getAudioState_def
      getVideoState_def exec_bind muteReading_def videoReading_def)

theorem C8_probe_that_ends_returns_witness:
  "exec getAudioState initial_world [SpawnError ''spawn osascript ENOENT''] =
     Some (Inr (''unknown'', ''low''), initial_world\<lparr>trace := [Osascript MonitorDetectMute]\<rparr>, [])
   \<and> Some 1 \<noteq> Some (0::int)
   \<and> exec getAudioState initial_world [Closed (Some 1) ''muted'' ''execution error''] =
     Some (Inr (''unknown'', ''low''), initial_world\<lparr>trace := [Osascript MonitorDetectMute]\<rparr>, [])
   \<and> None \<noteq> Some (0::int)
   \<and> exec getVideoState initial_world [Closed None ''video_on'' []] =
     Some (Inr (''unknown'', ''low''), initial_world\<lparr>trace := [Osascript MonitorDetectVideo]\<rparr>, [])
   \<and> trim ''no_meeting\<newline>'' \<noteq> ''muted'' \<and> trim ''no_meeting\<newline>'' \<noteq> ''unmuted''
   \<and> exec getAudioState initial_world [Closed (Some 0) ''no_meeting\<newline>'' []] =
     Some (Inr (''unknown'', ''low''), initial_world\<lparr>trace := [Osascript MonitorDetectMute]\<rparr>, [])
   \<and> trim ''error: System Events got an error\<newline>'' \<noteq> ''video_on''
   \<and> trim ''error: System Events got an error\<newline>'' \<noteq> ''video_off''
   \<and> exec getVideoState initial_world [Closed (Some 0) ''error: System Events got an error\<newline>'' []] =
     Some (Inr (''unknown'', ''low''), initial_world\<lparr>trace := [Osascript MonitorDetectVideo]\<rparr>, [])
   \<and> trim ''muted\<newline>'' = ''muted''
   \<and> exec getAudioState initial_world [Closed (Some 0) ''muted\<newline>'' []] =
     Some (Inr (''muted'', ''high''), initial_world\<lparr>trace := [Osascript MonitorDetectMute]\<rparr>, [])
   \<and> trim ''video_off\<newline>'' = ''video_off''
   \<and> exec getVideoState initial_world [Closed (Some 0) ''video_off\<newline>'' []] =
     Some (Inr (''video_off'', ''high''), initial_world\<lparr>trace := [Osascript MonitorDetectVideo]\<rparr>, [])"
proof -
  have t1: "trim ''no_meeting\<newline>'' \<noteq> ''muted''" "trim ''no_meeting\<newline>'' \<noteq> ''unmuted''"
    and t2: "trim ''error: System Events got an error\<newline>'' \<noteq> ''video_on''"
      "trim ''error: System Events got an error\<newline>'' \<noteq> ''video_off''"
    and t3: "trim ''muted\<newline>'' = ''muted''" and t4: "trim ''video_off\<newline>'' = ''video_off''"
    by (simp_all add: trim_def isWhiteSpace_def)
  have n1: "Some 1 \<noteq> Some (0::int)" and n2: "None \<noteq> Some (0::int)"
    by simp_all
  note a = C8_probe_that_ends_returns [where w = initial_world and rs = "[]"
      and msg = "''spawn osascript ENOENT''" and code = "Some 1" and out = "''muted''"
      and err = "''execution error''"]
  note b = C8_probe_that_ends_returns [where w = initial_world and rs = "[]"
      and code = None and out = "''video_on''" and err = "[]"]
  note c = C8_probe_that_ends_returns [where w = initial_world and rs = "[]"
      and out = "''no_meeting\<newline>''" and err = "[]"]
  note d = C8_probe_that_ends_returns [where w = initial_world and rs = "[]"
      and out = "''error: System Events got an error\<newline>''" and err = "[]"]
  note e = C8_probe_that_ends_returns [where w = initial_world and rs = "[]"
      and out = "''muted\<newline>''" and err = "[]"]
  note f = C8_probe_that_ends_returns [where w = initial_world and rs = "[]"
      and out = "''video_off\<newline>''" and err = "[]"]
  have c1: "exec getAudioState initial_world [SpawnError ''spawn osascript ENOENT''] =
     Some (Inr (''unknown'', ''low''), initial_world\<lparr>trace := [Osascript MonitorDetectMute]\<rparr>, [])"
    using a by (simp add: initial_world_def)
  have c2: "exec getAudioState initial_world [Closed (Some 1) ''muted'' ''execution error''] =
     Some (Inr (''unknown'', ''low''), initial_world\<lparr>trace := [Osascript MonitorDetectMute]\<rparr>, [])"
    using a n1 by (simp add: initial_world_def)
  have c3: "exec getVideoState initial_world [Closed None ''video_on'' []] =
     Some (Inr (''unknown'', ''low''), initial_world\<lparr>trace := [Osascript MonitorDetectVideo]\<rparr>, [])"
    using b n2 by (simp add: initial_world_def)
  have c4: "exec getAudioState initial_world [Closed (Some 0) ''no_meeting\<newline>'' []] =
     Some (Inr (''unknown'', ''low''), initial_world\<lparr>trace := [Osascript MonitorDetectMute]\<rparr>, [])"
    using c t1 by (simp add: initial_world_def)
  have c5: "exec getVideoState initial_world [Closed (Some 0) ''error: System Events got an error\<newline>'' []] =
     Some (Inr (''unknown'', ''low''), initial_world\<lparr>trace := [Osascript MonitorDetectVideo]\<rparr>, [])"
    using d t2 by (simp add: initial_world_def)
  have c6: "exec getAudioState initial_world [Closed (Some 0) ''muted\<newline>'' []] =
     Some (Inr (''muted'', ''high''), initial_world\<lparr>trace := [Osascript MonitorDetectMute]\<rparr>, [])"
    using e t3 by (simp add: initial_world_def)
  have c7: "exec getVideoState initial_world [Closed (Some 0) ''video_off\<newline>'' []] =
     Some (Inr (''video_off'', ''high''), initial_world\<lparr>trace := [Osascript MonitorDetectVideo]\<rparr>, [])"
    using f t4 by (simp add: initial_world_def)
  show ?thesis
    by (intro conjI c1 n1 c2 n2 c3 t1 c4 t2 c5 t3 c6 t4 c7)
qed

text \<open>
  C9 as stated fails. The first detection finds the microphone muted (high confidence).
  The second, made on the same monitor right after it, has a script that answers \<open>unknown\<close>:
  the detector returns \<open>unknown\<close> with low confidence, not the \<open>muted\<close> of the detection
  before.
\<close>

theorem C9_counterexample:
  "exec getAudioState initial_world [Closed (Some 0) ''muted'' []] =
     Some (Inr (''muted'', ''high''),
           initial_world\<lparr>trace := [Osascript MonitorDetectMute]\<rparr>, [])
   \<and> exec getAudioState (initial_world\<lparr>trace := [Osascript MonitorDetectMute]\<rparr>)
        [Closed (Some 0) ''unknown'' []] =
     Some (Inr (''unknown'', ''low''),
           initial_world\<lparr>trace := [Osascript MonitorDetectMute, Osascript MonitorDetectMute]\<rparr>,
           [])"
  by (simp add: getAudioState_def exec_bind exec_detectZoomMuteState muteReading_def
      initial_world_def trim_def isWhiteSpace_def)

text \<open>
  C9, amended. The monitor has one detection script per state and keeps nothing between
  calls. When that script does not answer \<open>muted\<close> or \<open>unmuted\<close>, \<open>getAudioState\<close> returns
  \<open>unknown\<close> with the confidence \<open>low\<close>, and when it does not answer \<open>video_on\<close> or
  \<open>video_off\<close>, \<open>getVideoState\<close> returns \<open>unknown\<close> with \<open>low\<close>; what is returned depends on
  the ending of this call's process alone, not on what happened before (the instance \<open>w\<close>
  and \<open>w'\<close> it runs in).
\<close>

theorem C9_unknown_is_returned:
  "(appleScriptOutcome d \<noteq> Inr ''muted'' \<and> appleScriptOutcome d \<noteq> Inr ''unmuted'' \<longrightarrow>
      exec getAudioState w (d # rs) =
        Some (Inr (''unknown'', ''low''), issue (Osascript MonitorDetectMute) w, rs))
   \<and> (appleScriptOutcome d \<noteq> Inr ''video_on'' \<and> appleScriptOutcome d \<noteq> Inr ''video_off'' \<longrightarrow>
      exec getVideoState w (d # rs) =
        Some (Inr (''unknown'', ''low''), issue (Osascript MonitorDetectVideo) w, rs))
   \<and> map_option fst (exec getAudioState w (d # rs)) = map_option fst (exec getAudioState w' (d # rs'))
   \<and> map_option fst (exec getVideoState w (d # rs)) = map_option fst (exec getVideoState w' (d # rs'))"
  by (simp add: exec_detectZoomMuteState exec_detectZoomVideoState getAudioState_def
      getVideoState_def exec_bind muteReading_def videoReading_def)

theorem C9_unknown_is_returned_witness:
  "appleScriptOutcome (Closed (Some 0) ''no_meeting'' []) \<noteq> Inr ''muted''
   \<and> appleScriptOutcome (Closed (Some 0) ''no_meeting'' []) \<noteq> Inr ''unmuted''
   \<and> exec getAudioState (initial_world\<lparr>trace := [Osascript MonitorDetectMute]\<rparr>)
        [Closed (Some 0) ''no_meeting'' []] =
      Some (Inr (''unknown'', ''low''),
            initial_world\<lparr>trace := [Osascript MonitorDetectMute, Osascript MonitorDetectMute]\<rparr>, [])
   \<and> appleScriptOutcome (Closed (Some 0) ''no_meeting'' []) \<noteq> Inr ''video_on''
   \<and> appleScriptOutcome (Closed (Some 0) ''no_meeting'' []) \<noteq> Inr ''video_off''
   \<and> exec getVideoState (initial_world\<lparr>trace := [Osascript MonitorDetectMute]\<rparr>)
        [Closed (Some 0) ''no_meeting'' []] =
      Some (Inr (''unknown'', ''low''),
            initial_world\<lparr>trace := [Osascript MonitorDetectMute, Osascript MonitorDetectVideo]\<rparr>, [])"
proof -
  have h: "appleScriptOutcome (Closed (Some 0) ''no_meeting'' []) \<noteq> Inr ''muted''"
    "appleScriptOutcome (Closed (Some 0) ''no_meeting'' []) \<noteq> Inr ''unmuted''"
    "appleScriptOutcome (Closed (Some 0) ''no_meeting'' []) \<noteq> Inr ''video_on''"
    "appleScriptOutcome (Closed (Some 0) ''no_meeting'' []) \<noteq> Inr ''video_off''"
    by (simp_all add: trim_def isWhiteSpace_def)
  from C9_unknown_is_returned [of "Closed (Some 0) ''no_meeting'' []"
      "initial_world\<lparr>trace := [Osascript MonitorDetectMute]\<rparr>" "[]"]
  show ?thesis
    using h by (simp add: initial_world_def)
qed

section \<open>A detection that returns unknown\<close>

lemma exec_need_result [simp]:
  "exec isZoomRunning w [] = None"
  "exec isInMeeting w [] = None"
  "exec detectZoomMuteState w [] = None"
  "exec detectZoomVideoState w [] = None"
  "exec video_isZoomRunning w [] = None"
  "exec video_isInMeeting w [] = None"
  "exec audioMonitor_detectZoomVideoState w [] = None"
  by (simp_all add: isZoomRunning_def isInMeeting_def detectZoomMuteState_def
      detectZoomVideoState_def video_isZoomRunning_def video_isInMeeting_def
      audioMonitor_detectZoomVideoState_def executeCommand_def executeAppleScript_def
      execSync_def exec_try_catch exec_bind)

lemma exec_video_isZoomRunning:
  "exec video_isZoomRunning w (r # rs) =
     Some (Inr (video_reportsRunning r), issue ExecSyncPgrep w, rs)"
  by (cases "execSyncOutcome r")
     (simp_all add: video_isZoomRunning_def exec_try_catch exec_bind execSync_def settle_def
        video_reportsRunning_def)

lemma exec_video_isInMeeting:
  "exec video_isInMeeting w (r # rs) =
     Some (Inr (video_reportsMeeting r), issue (ExecSyncOsascript CheckMeeting) w, rs)"
  by (cases "execSyncOutcome r")
     (simp_all add: video_isInMeeting_def exec_try_catch exec_bind execSync_def settle_def
        video_reportsMeeting_def)

lemma detectState_subclass [simp]:
  "detectState ZoomMuteToggle = detectZoomMuteState"
  "detectState ZoomVideoToggle = detectZoomVideoState"
  "ZoomVideoToggle \<noteq> ZoomMuteToggle"
  by (simp_all add: ZoomMuteToggle_def ZoomVideoToggle_def)

lemma exec_updateState_not_in_meeting:
  "\<not> isUpdating w \<Longrightarrow> reportsRunning r0 \<Longrightarrow> \<not> reportsMeeting r1 \<Longrightarrow>
   exec (updateState sub) w (r0 # r1 # rs) =
     Some (Inr (),
           w\<lparr>isUpdating := False, title := ''Not in\<newline>Meeting'',
             trace := trace w @ [Spawn ''pgrep'' [''-f'', ''zoom.us''], Osascript CheckMeeting,
                                 SetTitle ''Not in\<newline>Meeting'']\<rparr>,
           rs)"
  by (simp add: updateState_def updateState_body_def exec_try_finally exec_try_catch exec_bind exec_isZoomRunning
      exec_isInMeeting)

lemma exec_updateState_mute:
  "\<not> isUpdating w \<Longrightarrow> reportsRunning r0 \<Longrightarrow> reportsMeeting r1 \<Longrightarrow>
   exec (updateState ZoomMuteToggle) w (r0 # r1 # d # rs) =
     Some (Inr (),
           (if muteReading d = ''unknown'' then
              w\<lparr>isUpdating := False,
                trace := trace w @ [Spawn ''pgrep'' [''-f'', ''zoom.us''], Osascript CheckMeeting,
                                    Osascript MonitorDetectMute]\<rparr>
            else
              w\<lparr>isUpdating := False, title := [],
                keyState := (if muteReading d = ''muted'' then 0 else 1),
                trace := trace w @ [Spawn ''pgrep'' [''-f'', ''zoom.us''], Osascript CheckMeeting,
                                    Osascript MonitorDetectMute,
                                    SetState (if muteReading d = ''muted'' then 0 else 1),
                                    SetTitle []]\<rparr>),
           rs)"
  by (simp add: updateState_def updateState_body_def exec_try_finally exec_try_catch exec_bind exec_isZoomRunning
      exec_isInMeeting ZoomMuteToggle_def exec_detectZoomMuteState)
     (simp add: muteReading_def)

lemma exec_updateState_video:
  "\<not> isUpdating w \<Longrightarrow> reportsRunning r0 \<Longrightarrow> reportsMeeting r1 \<Longrightarrow>
   exec (updateState ZoomVideoToggle) w (r0 # r1 # d # rs) =
     Some (Inr (),
           (if videoReading d = ''unknown'' then
              w\<lparr>isUpdating := False,
                trace := trace w @ [Spawn ''pgrep'' [''-f'', ''zoom.us''], Osascript CheckMeeting,
                                    Osascript MonitorDetectVideo]\<rparr>
            else
              w\<lparr>isUpdating := False, title := [],
                keyState := (if videoReading d = ''video_off'' then 0 else 1),
                trace := trace w @ [Spawn ''pgrep'' [''-f'', ''zoom.us''], Osascript CheckMeeting,
                                    Osascript MonitorDetectVideo,
                                    SetState (if videoReading d = ''video_off'' then 0 else 1),
                                    SetTitle []]\<rparr>),
           rs)"
  by (simp add: updateState_def updateState_body_def exec_try_finally exec_try_catch exec_bind exec_isZoomRunning
      exec_isInMeeting ZoomVideoToggle_def exec_detectZoomVideoState)
     (simp add: videoReading_def)

lemma exec_video_updateState:
  "video_reportsRunning r0 \<Longrightarrow> video_reportsMeeting r1 \<Longrightarrow>
   exec video_updateState w (r0 # r1 # d # rs) =
     Some (Inr (),
           (if audioMonitor_videoReading d = ''unknown'' then
              w\<lparr>title := ''Zoom\<newline>Meeting'',
                trace := trace w @ [ExecSyncPgrep, ExecSyncOsascript CheckMeeting,
                                    ExecSyncOsascript AudioMonitorDetectVideo,
                                    SetTitle ''Zoom\<newline>Meeting'']\<rparr>
            else
              w\<lparr>lastKnownState := audioMonitor_videoReading d,
                keyState := (if audioMonitor_videoReading d = ''video_off'' then 0 else 1),
                trace := trace w @ [ExecSyncPgrep, ExecSyncOsascript CheckMeeting,
                                    ExecSyncOsascript AudioMonitorDetectVideo,
                                    SetState (if audioMonitor_videoReading d = ''video_off'' then 0 else 1)]\<rparr>),
           rs)"
  by (simp add: video_updateState_def exec_try_catch exec_bind exec_video_isZoomRunning
      exec_video_isInMeeting exec_audioMonitor_detectZoomVideoState video_setButtonState_def)

lemma updateState_key_changes:
  assumes "sub = ZoomMuteToggle \<or> sub = ZoomVideoToggle"
    and "exec (updateState sub) w rs = Some (res, w', rest)"
    and "keyState w' \<noteq> keyState w"
  shows "\<exists>r0 r1 d. rs = r0 # r1 # d # rest
           \<and> map_option fst (exec (detectState sub) w [d]) \<noteq> Some (Inr ''unknown'')"
proof (cases "isUpdating w")
  case True
  with assms(2,3) show ?thesis by (simp add: exec_updateState_held)
next
  case False
  note free = this
  show ?thesis
  proof (cases rs)
    case Nil
    with free assms(2) show ?thesis
      by (simp add: updateState_def updateState_body_def exec_try_finally exec_try_catch exec_bind)
  next
    case (Cons r0 rs1)
    note rs = this
    show ?thesis
    proof (cases "reportsRunning r0")
      case False
      with free rs assms(2,3) show ?thesis by (auto simp: exec_updateState_absent)
    next
      case True
      note running = this
      show ?thesis
      proof (cases rs1)
        case Nil
        with free rs running assms(2) show ?thesis
          by (simp add: updateState_def updateState_body_def exec_try_finally exec_try_catch exec_bind exec_isZoomRunning)
      next
        case (Cons r1 rs2)
        note rs1 = this
        show ?thesis
        proof (cases "reportsMeeting r1")
          case False
          with free rs rs1 running assms(2,3) show ?thesis
            by (auto simp: exec_updateState_not_in_meeting)
        next
          case True
          note meeting = this
          show ?thesis
          proof (cases rs2)
            case Nil
            with free rs rs1 running meeting assms(1,2) show ?thesis
              by (auto simp: updateState_def updateState_body_def exec_try_finally exec_try_catch exec_bind
                  exec_isZoomRunning exec_isInMeeting)
          next
            case (Cons d rs3)
            from assms(1) show ?thesis
            proof
              assume "sub = ZoomMuteToggle"
              with free rs rs1 Cons running meeting assms(2,3) show ?thesis
                by (auto simp: exec_updateState_mute exec_detectZoomMuteState split: if_splits)
            next
              assume "sub = ZoomVideoToggle"
              with free rs rs1 Cons running meeting assms(2,3) show ?thesis
                by (auto simp: exec_updateState_video exec_detectZoomVideoState split: if_splits)
            qed
          qed
        qed
      qed
    qed
  qed
qed

text \<open>
  C7. A state update of the mute or of the video action gets past its guard, Zoom is
  running and in a meeting, and the detector returns \<open>unknown\<close> for the way \<open>d\<close> its script
  ended. Then the update issues the two checks and the detection script and nothing else:
  no call to the key is made, so its state and its title are what they were, whatever they
  were, and the base class has no field in which a detected state would be recorded.
  Conversely, whenever a state update ends with another key state than it started with,
  it is one that made a detection, and the detector did not return \<open>unknown\<close> for it.
  In the stand-alone video action an \<open>unknown\<close> detection leaves the key state and
  \<open>lastKnownState\<close> as they were and puts the title \<open>Zoom / Meeting\<close> on the key.
\<close>

theorem C7_unknown_leaves_key_state:
  assumes "sub = ZoomMuteToggle \<or> sub = ZoomVideoToggle"
  shows "(\<not> isUpdating w \<and> reportsRunning r0 \<and> reportsMeeting r1
          \<and> map_option fst (exec (detectState sub) w [d]) = Some (Inr ''unknown'') \<longrightarrow>
            (\<exists>w'. exec (updateState sub) w (r0 # r1 # d # rs) = Some (Inr (), w', rs)
               \<and> keyState w' = keyState w \<and> title w' = title w
               \<and> trace w' = trace w @ [Spawn ''pgrep'' [''-f'', ''zoom.us''],
                                        Osascript CheckMeeting,
                                        Osascript (if sub = ZoomMuteToggle then MonitorDetectMute
                                                   else MonitorDetectVideo)]))
     \<and> (exec (updateState sub) v qs = Some (res, v', rest) \<and> keyState v' \<noteq> keyState v \<longrightarrow>
            (\<exists>q0 q1 q. qs = q0 # q1 # q # rest
               \<and> map_option fst (exec (detectState sub) v [q]) \<noteq> Some (Inr ''unknown'')))
     \<and> (video_reportsRunning r0 \<and> video_reportsMeeting r1
          \<and> map_option fst (exec audioMonitor_detectZoomVideoState w [d]) = Some (Inr ''unknown'') \<longrightarrow>
            (\<exists>w'. exec video_updateState w (r0 # r1 # d # rs) = Some (Inr (), w', rs)
               \<and> keyState w' = keyState w \<and> lastKnownState w' = lastKnownState w
               \<and> title w' = ''Zoom\<newline>Meeting''))"
proof (intro conjI impI)
  assume a: "\<not> isUpdating w \<and> reportsRunning r0 \<and> reportsMeeting r1
          \<and> map_option fst (exec (detectState sub) w [d]) = Some (Inr ''unknown'')"
  from assms show "\<exists>w'. exec (updateState sub) w (r0 # r1 # d # rs) = Some (Inr (), w', rs)
               \<and> keyState w' = keyState w \<and> title w' = title w
               \<and> trace w' = trace w @ [Spawn ''pgrep'' [''-f'', ''zoom.us''],
                                        Osascript CheckMeeting,
                                        Osascript (if sub = ZoomMuteToggle then MonitorDetectMute
                                                   else MonitorDetectVideo)]"
  proof
    assume "sub = ZoomMuteToggle"
    with a show ?thesis
      by (simp add: exec_updateState_mute exec_detectZoomMuteState)
  next
    assume "sub = ZoomVideoToggle"
    with a show ?thesis
      by (simp add: exec_updateState_video exec_detectZoomVideoState)
  qed
next
  assume "exec (updateState sub) v qs = Some (res, v', rest) \<and> keyState v' \<noteq> keyState v"
  with assms show "\<exists>q0 q1 q. qs = q0 # q1 # q # rest
               \<and> map_option fst (exec (detectState sub) v [q]) \<noteq> Some (Inr ''unknown'')"
    by (intro updateState_key_changes) auto
next
  assume "video_reportsRunning r0 \<and> video_reportsMeeting r1
          \<and> map_option fst (exec audioMonitor_detectZoomVideoState w [d]) = Some (Inr ''unknown'')"
  then show "\<exists>w'. exec video_updateState w (r0 # r1 # d # rs) = Some (Inr (), w', rs)
               \<and> keyState w' = keyState w \<and> lastKnownState w' = lastKnownState w
               \<and> title w' = ''Zoom\<newline>Meeting''"
    by (simp add: exec_video_updateState exec_audioMonitor_detectZoomVideoState)
qed

theorem C7_unknown_leaves_key_state_witness:
  "\<not> isUpdating (initial_world\<lparr>keyState := 1\<rparr>)
   \<and> reportsRunning (Closed (Some 0) ''4242'' [])
   \<and> reportsMeeting (Closed (Some 0) ''true'' [])
   \<and> map_option fst (exec (detectState ZoomMuteToggle) (initial_world\<lparr>keyState := 1\<rparr>)
        [Closed (Some 0) ''no_meeting'' []]) = Some (Inr ''unknown'')
   \<and> (\<exists>w'. exec (updateState ZoomMuteToggle) (initial_world\<lparr>keyState := 1\<rparr>)
               [Closed (Some 0) ''4242'' [], Closed (Some 0) ''true'' [],
                Closed (Some 0) ''no_meeting'' []] = Some (Inr (), w', [])
          \<and> keyState w' = 1 \<and> title w' = []
          \<and> trace w' = [Spawn ''pgrep'' [''-f'', ''zoom.us''], Osascript CheckMeeting,
                         Osascript MonitorDetectMute])
   \<and> exec (updateState ZoomMuteToggle) (initial_world\<lparr>keyState := 1\<rparr>)
        [Closed (Some 0) ''4242'' [], Closed (Some 0) ''true'' [], Closed (Some 0) ''muted'' []] =
      Some (Inr (),
            initial_world\<lparr>trace := [Spawn ''pgrep'' [''-f'', ''zoom.us''], Osascript CheckMeeting,
                                     Osascript MonitorDetectMute, SetState 0, SetTitle []]\<rparr>,
            [])
   \<and> keyState (initial_world\<lparr>trace := [Spawn ''pgrep'' [''-f'', ''zoom.us''], Osascript CheckMeeting,
                                         Osascript MonitorDetectMute, SetState 0, SetTitle []]\<rparr>)
       \<noteq> keyState (initial_world\<lparr>keyState := 1\<rparr>)
   \<and> (\<exists>q0 q1 q. [Closed (Some 0) ''4242'' [], Closed (Some 0) ''true'' [],
                   Closed (Some 0) ''muted'' []] = q0 # q1 # q # []
          \<and> map_option fst (exec (detectState ZoomMuteToggle) (initial_world\<lparr>keyState := 1\<rparr>) [q])
              \<noteq> Some (Inr ''unknown''))
   \<and> video_reportsRunning (Closed (Some 0) ''4242'' [])
   \<and> video_reportsMeeting (Closed (Some 0) ''true'' [])
   \<and> map_option fst (exec audioMonitor_detectZoomVideoState (initial_world\<lparr>keyState := 1\<rparr>)
        [Closed (Some 0) ''no_meeting'' []]) = Some (Inr ''unknown'')
   \<and> (\<exists>w'. exec video_updateState (initial_world\<lparr>keyState := 1\<rparr>)
               [Closed (Some 0) ''4242'' [], Closed (Some 0) ''true'' [],
                Closed (Some 0) ''no_meeting'' []] = Some (Inr (), w', [])
          \<and> keyState w' = 1 \<and> lastKnownState w' = ''unknown''
          \<and> title w' = ''Zoom\<newline>Meeting'')"
proof -
  let ?w = "initial_world\<lparr>keyState := 1\<rparr>"
  let ?r0 = "Closed (Some 0) ''4242'' []"
  let ?r1 = "Closed (Some 0) ''true'' []"
  let ?d = "Closed (Some 0) ''no_meeting'' []"
  let ?m = "Closed (Some 0) ''muted'' []"
  let ?v' = "initial_world\<lparr>trace := [Spawn ''pgrep'' [''-f'', ''zoom.us''], Osascript CheckMeeting,
                                     Osascript MonitorDetectMute, SetState 0, SetTitle []]\<rparr>"
  have free: "\<not> isUpdating ?w"
    by (simp add: initial_world_def)
  have run: "reportsRunning ?r0" and meet: "reportsMeeting ?r1"
    by (simp_all add: reportsRunning_def reportsMeeting_def trim_def isWhiteSpace_def)
  have unk: "map_option fst (exec (detectState ZoomMuteToggle) ?w [?d]) = Some (Inr ''unknown'')"
    by (simp add: exec_detectZoomMuteState muteReading_def trim_def isWhiteSpace_def)
  have mut: "muteReading ?m = ''muted''"
    by (simp add: muteReading_def trim_def isWhiteSpace_def)
  have ex: "exec (updateState ZoomMuteToggle) ?w [?r0, ?r1, ?m] = Some (Inr (), ?v', [])"
    using free run meet mut by (simp add: exec_updateState_mute) (simp add: initial_world_def)
  have ch: "keyState ?v' \<noteq> keyState ?w"
    by (simp add: initial_world_def)
  have vrun: "video_reportsRunning ?r0" and vmeet: "video_reportsMeeting ?r1"
    by (simp_all add: video_reportsRunning_def video_reportsMeeting_def trim_def isWhiteSpace_def)
  have vunk: "map_option fst (exec audioMonitor_detectZoomVideoState ?w [?d]) = Some (Inr ''unknown'')"
    by (simp add: exec_audioMonitor_detectZoomVideoState audioMonitor_videoReading_def trim_def
        isWhiteSpace_def)
  note inst = C7_unknown_leaves_key_state [OF disjI1 [OF refl],
      of ?w ?r0 ?r1 ?d "[]" ?w "[?r0, ?r1, ?m]" "Inr ()" ?v' "[]"]
  from inst free run meet unk
  have c1: "\<exists>w'. exec (updateState ZoomMuteToggle) ?w [?r0, ?r1, ?d] = Some (Inr (), w', [])
          \<and> keyState w' = 1 \<and> title w' = []
          \<and> trace w' = [Spawn ''pgrep'' [''-f'', ''zoom.us''], Osascript CheckMeeting,
                         Osascript MonitorDetectMute]"
    by (simp add: initial_world_def)
  from inst ex ch
  have c2: "\<exists>q0 q1 q. [?r0, ?r1, ?m] = q0 # q1 # q # []
          \<and> map_option fst (exec (detectState ZoomMuteToggle) ?w [q]) \<noteq> Some (Inr ''unknown'')"
    by blast
  from inst vrun vmeet vunk
  have c3: "\<exists>w'. exec video_updateState ?w [?r0, ?r1, ?d] = Some (Inr (), w', [])
          \<and> keyState w' = 1 \<and> lastKnownState w' = ''unknown''
          \<and> title w' = ''Zoom\<newline>Meeting''"
    by (simp add: initial_world_def)
  show ?thesis
    by (intro conjI free run meet unk c1 ex ch c2 vrun vmeet vunk c3)
qed

section \<open>The keystroke command\<close>

lemma js_split_not_Nil [simp]: "js_split sep s \<noteq> []"
  by (induction s) (auto split: list.splits)

lemma js_split_map:
  assumes "\<And>c. (f c = sep) = (c = sep)"
  shows "js_split sep (map f s) = map (map f) (js_split sep s)"
proof (induction s)
  case Nil
  show ?case by simp
next
  case (Cons c cs)
  then show ?case
    using assms [of c] by (cases "js_split sep cs") auto
qed

lemma toLowerCase_char_plus: "(toLowerCase_char c = CHR ''+'') = (c = CHR ''+'')"
  by (auto simp: toLowerCase_char_def split: option.splits if_splits)

lemma modifierMap_values: "map_of modifierMap m = Some v \<Longrightarrow> v \<noteq> []"
  by (auto simp: modifierMap_def split: if_splits)

lemma recognised_modifiers:
  "\<forall>m \<in> set ms. map_of Object_prototype m = None \<Longrightarrow>
   map js_toString (filter truthy (map modifierMap_get ms)) = List.map_filter (map_of modifierMap) ms"
proof (induction ms)
  case Nil
  show ?case by (simp add: List.map_filter_simps)
next
  case (Cons m ms)
  then show ?case
    by (cases "map_of modifierMap m")
       (auto simp: List.map_filter_simps modifierMap_get_def dest: modifierMap_values)
qed

lemma js_join_Nil: "\<forall>x \<in> set xs. x \<noteq> [] \<Longrightarrow> (js_join sep xs = []) = (xs = [])"
  by (induction sep xs rule: js_join.induct) auto

lemma toLowerCase_char_not_upper:
  "toLowerCase_char x \<noteq> CHR ''G''" "toLowerCase_char x \<noteq> CHR ''S''"
  "toLowerCase_char x \<noteq> CHR ''P''" "toLowerCase_char x \<noteq> CHR ''I''"
  "toLowerCase_char x \<noteq> CHR ''O''"
  by (auto simp: toLowerCase_char_def split: option.splits if_splits)

lemma toLowerCase_no_upper:
  "c \<in> {CHR ''G'', CHR ''S'', CHR ''P'', CHR ''I'', CHR ''O''} \<Longrightarrow> c \<notin> set (toLowerCase m)"
  using toLowerCase_char_not_upper by (auto simp: toLowerCase_def)

lemma inherited_lowercase_names:
  "(map_of Object_prototype (toLowerCase m) = None) =
     (toLowerCase m \<noteq> ''constructor'' \<and> toLowerCase m \<noteq> ''__proto__'')"
proof -
  have 1: "toLowerCase m \<noteq> ''__defineGetter__''" "toLowerCase m \<noteq> ''__lookupGetter__''"
    using toLowerCase_no_upper [of "CHR ''G''" m] by auto
  have 2: "toLowerCase m \<noteq> ''__defineSetter__''" "toLowerCase m \<noteq> ''__lookupSetter__''"
    "toLowerCase m \<noteq> ''toString''" "toLowerCase m \<noteq> ''toLocaleString''"
    using toLowerCase_no_upper [of "CHR ''S''" m] by auto
  have 3: "toLowerCase m \<noteq> ''hasOwnProperty''" "toLowerCase m \<noteq> ''isPrototypeOf''"
    using toLowerCase_no_upper [of "CHR ''P''" m] by auto
  have 4: "toLowerCase m \<noteq> ''propertyIsEnumerable''"
    using toLowerCase_no_upper [of "CHR ''I''" m] by auto
  have 5: "toLowerCase m \<noteq> ''valueOf''"
    using toLowerCase_no_upper [of "CHR ''O''" m] by auto
  show ?thesis
    using 1 2 3 4 5 by (simp add: Object_prototype_def)
qed

text \<open>
  What \<open>generateKeystrokeScript\<close> returns when no modifier segment names a property that
  the object literal inherits (after lower-casing only \<open>constructor\<close> and \<open>__proto__\<close> can):
  the key is the lower-cased last segment, the modifiers are
  the values of the segments before it that \<open>modifierMap\<close> owns, in their order, and the
  \<open>using\<close> clause is there exactly when there is one.
\<close>

lemma generateKeystrokeScript_recognised:
  assumes "\<forall>m \<in> set (butlast (js_split CHR ''+'' shortcut)).
             toLowerCase m \<noteq> ''constructor'' \<and> toLowerCase m \<noteq> ''__proto__''"
  shows \<open>generateKeystrokeScript shortcut =
     (if List.map_filter (map_of modifierMap)
           (map toLowerCase (butlast (js_split CHR ''+'' shortcut))) = []
      then ''keystroke "'' @ toLowerCase (last (js_split CHR ''+'' shortcut)) @ ''"''
      else ''keystroke "'' @ toLowerCase (last (js_split CHR ''+'' shortcut)) @ ''" using {''
           @ js_join '', '' (List.map_filter (map_of modifierMap)
               (map toLowerCase (butlast (js_split CHR ''+'' shortcut))))
           @ ''}'')\<close>
proof -
  let ?segs = "js_split CHR ''+'' shortcut"
  let ?names = "List.map_filter (map_of modifierMap) (map toLowerCase (butlast ?segs))"
  have parts: "js_split CHR ''+'' (toLowerCase shortcut) = map toLowerCase ?segs"
    unfolding toLowerCase_def
    using js_split_map [of toLowerCase_char "CHR ''+''" shortcut]
    by (simp add: toLowerCase_char_plus)
  have key: "last (map toLowerCase ?segs) = toLowerCase (last ?segs)"
    by (simp add: last_map)
  have mods: "butlast (map toLowerCase ?segs) = map toLowerCase (butlast ?segs)"
    by (simp add: map_butlast)
  have "\<forall>m \<in> set (map toLowerCase (butlast ?segs)). map_of Object_prototype m = None"
    using assms by (simp add: inherited_lowercase_names)
  then have names: "map js_toString (filter truthy (map modifierMap_get
                      (map toLowerCase (butlast ?segs)))) = ?names"
    by (rule recognised_modifiers)
  have "\<forall>x \<in> set ?names. x \<noteq> []"
    by (auto simp: List.map_filter_def dest: modifierMap_values)
  then have empty: "(js_join '', '' ?names = []) = (?names = [])"
    by (rule js_join_Nil)
  show ?thesis
    unfolding generateKeystrokeScript_def Let_def parts key mods names
    using empty by simp
qed

text \<open>
  C10. The claim holds for every shortcut none of whose modifier segments is \<open>constructor\<close>
  or \<open>__proto__\<close> (the lemma above). It fails for those two: \<open>modifierMap\<close> is an object
  literal, so the read \<open>modifierMap['__proto__']\<close> finds \<open>Object.prototype\<close>, which is
  truthy and passes the filter, and \<open>join\<close> writes it as \<open>[object Object]\<close>. The segment
  is not one of the recognised modifiers (\<open>validateKeyboardShortcut\<close> warns about it as
  unknown and lets it through), yet it is not dropped: the command carries a \<open>using\<close>
  clause that lists it, and the key press runs the toggle script with that command.
\<close>

theorem C10_inherited_property_not_dropped:
  \<open>generateKeystrokeScript ''__proto__+a'' = ''keystroke "a" using {[object Object]}''
   \<and> generateKeystrokeScript ''constructor+shift+a'' =
       ''keystroke "a" using {function Object() { [native code] }, shift down}''
   \<and> map_option (trace \<circ> fst \<circ> snd)
       (exec (onKeyDown config ZoomMuteToggle
                \<lparr>controlMethod = None, keyboardShortcut = Some ''__proto__+a''\<rparr>)
          initial_world [Closed (Some 0) ''4242'' [], Closed (Some 0) [] []]) =
     Some [Spawn ''pgrep'' [''-f'', ''zoom.us''],
           Osascript (KeyboardToggle 100 ''keystroke "a" using {[object Object]}'')]\<close>
proof -
  have k1: \<open>generateKeystrokeScript ''__proto__+a'' = ''keystroke "a" using {[object Object]}''\<close>
    by code_simp
  have k2: \<open>generateKeystrokeScript ''constructor+shift+a'' =
       ''keystroke "a" using {function Object() { [native code] }, shift down}''\<close>
    by code_simp
  have run: "reportsRunning (Closed (Some 0) ''4242'' [])"
    by (simp add: reportsRunning_def trim_def isWhiteSpace_def)
  have "exec (onKeyDown config ZoomMuteToggle
                \<lparr>controlMethod = None, keyboardShortcut = Some ''__proto__+a''\<rparr>)
          initial_world [Closed (Some 0) ''4242'' [], Closed (Some 0) [] []] =
        Some (Inr (),
          initial_world
            \<lparr>timeouts := [1000],
             trace := [Spawn ''pgrep'' [''-f'', ''zoom.us''],
                       Osascript (KeyboardToggle 100 (generateKeystrokeScript ''__proto__+a''))]\<rparr>,
          [])"
    using run
    by (simp add: onKeyDown_def exec_try_catch exec_bind exec_cleanup exec_isZoomRunning
        exec_validateKeyboardShortcut executeToggleAction_def exec_loop cleaned_def
        or_default_def config_def toggleScript_def initial_world_def)
  then show ?thesis
    using k1 k2 by (simp add: initial_world_def)
qed

section \<open>A key press and the state update after it\<close>

lemma exec_onKeyDown_first_attempt:
  assumes "reportsRunning r0" and "0 < maxRetryAttempts cfg"
    and "\<not> isl (appleScriptOutcome s1)"
    and "or_default (keyboardShortcut settings) (getDefaultShortcut sub) \<noteq> []"
  shows "exec (onKeyDown cfg sub settings) w (r0 # s1 # rs) =
     Some (Inr (),
       (cleaned w)
         \<lparr>timeouts := timeouts w @ [stateUpdateDelay cfg],
          trace := trace w @
            [Spawn ''pgrep'' [''-f'', ''zoom.us''],
             Osascript (toggleScript cfg sub (or_default (controlMethod settings) ''keyboard'')
                (or_default (keyboardShortcut settings) (getDefaultShortcut sub)))]\<rparr>,
       rs)"
proof -
  from assms(3) obtain v where v: "appleScriptOutcome s1 = Inr v"
    by (cases "appleScriptOutcome s1") auto
  show ?thesis
    using assms(1,2,4) v
    by (simp add: onKeyDown_def exec_try_catch exec_bind exec_cleanup exec_isZoomRunning
        exec_validateKeyboardShortcut executeToggleAction_def exec_loop cleaned_def
        split: option.splits)
qed

lemma exec_video_onKeyDown:
  assumes "video_reportsRunning r0" and "\<not> isl (execSyncOutcome s1)"
  shows "exec (video_onKeyDown settings) w (r0 # s1 # rs) =
     Some (Inr (),
       w\<lparr>lastKnownState := (if lastKnownState w = ''video_on'' then ''video_off'' else ''video_on''),
         keyState := (if lastKnownState w = ''video_on'' then 0 else 1),
         timeouts := timeouts w @ [800],
         trace := trace w @
           [ExecSyncPgrep,
            ExecSyncOsascript
              (if or_default (controlMethod settings) ''keyboard'' = ''menubar''
               then MenubarVideo (generateKeystrokeScript
                      (or_default (keyboardShortcut settings) ''cmd+shift+v''))
               else KeyboardToggle 100 (generateKeystrokeScript
                      (or_default (keyboardShortcut settings) ''cmd+shift+v''))),
            SetState (if lastKnownState w = ''video_on'' then 0 else 1)]\<rparr>,
       rs)"
proof -
  from assms(2) obtain v where v: "execSyncOutcome s1 = Inr v"
    by (cases "execSyncOutcome s1") auto
  show ?thesis
    using assms(1) v
    by (simp add: video_onKeyDown_def exec_try_catch exec_bind exec_video_isZoomRunning
        execSync_def settle_def video_setButtonState_def)
qed


section \<open>Mutual exclusion of state updates\<close>

lemma isUpdating_issue [simp]: "isUpdating (issue c w) = isUpdating w"
  by (cases c) simp_all

lemma quiet_bind: "quiet b p \<Longrightarrow> (\<And>x. quiet b (f x)) \<Longrightarrow> quiet b (bind p f)"
  by (induction p) auto

lemma quiet_try_catch: "quiet b p \<Longrightarrow> (\<And>e. quiet b (h e)) \<Longrightarrow> quiet b (try_catch p h)"
  by (induction p) auto

lemma quiet_mono: "quiet False p \<Longrightarrow> quiet b p"
  by (induction p) auto

lemma quiet_settle [simp]: "quiet b (settle x)"
  by (cases x) (simp_all add: settle_def)

lemma guarded_Outside_Free: "guarded p Outside \<Longrightarrow> guarded p Free"
  by (induction p) (auto split: if_splits)

lemma quiet_guarded: "quiet False p \<Longrightarrow> m \<noteq> Inside \<Longrightarrow> guarded p m"
  by (induction p arbitrary: m) (auto split: mode.splits)

lemma guarded_bind_quiet:
  "guarded p m \<Longrightarrow> (\<And>x. quiet False (f x)) \<Longrightarrow> guarded (bind p f) m"
proof (induction p arbitrary: m)
  case (Get k)
  show ?case
  proof (cases m)
    case Outside
    { fix w
      from Get.prems(1) Outside
      have "guarded (k w) (if isUpdating w then Outside else Free)" by simp
      then have "guarded (bind (k w) f) (if isUpdating w then Outside else Free)"
        using Get.prems(2) by (intro Get.IH) auto }
    with Outside show ?thesis by simp
  next
    case Free
    with Get show ?thesis by auto
  next
    case Inside
    with Get show ?thesis by auto
  qed
qed (auto simp: quiet_guarded split: mode.splits)

lemma guarded_try_catch_quiet:
  "guarded p m \<Longrightarrow> (\<And>e. quiet False (h e)) \<Longrightarrow> guarded (try_catch p h) m"
proof (induction p arbitrary: m)
  case (Get k)
  show ?case
  proof (cases m)
    case Outside
    { fix w
      from Get.prems(1) Outside
      have "guarded (k w) (if isUpdating w then Outside else Free)" by simp
      then have "guarded (try_catch (k w) h) (if isUpdating w then Outside else Free)"
        using Get.prems(2) by (intro Get.IH) auto }
    with Outside show ?thesis by simp
  next
    case Free
    with Get show ?thesis by auto
  next
    case Inside
    with Get show ?thesis by auto
  qed
qed (auto simp: quiet_guarded split: mode.splits)

lemma quiet_bind_guarded:
  "quiet False p \<Longrightarrow> (\<And>x. guarded (f x) Outside) \<Longrightarrow> m \<noteq> Inside \<Longrightarrow> guarded (bind p f) m"
proof (induction p arbitrary: m)
  case (Ret x)
  then show ?case
    by (cases m) (auto simp: guarded_Outside_Free)
qed (auto split: mode.splits)

lemma guarded_try_finally:
  "quiet True q \<Longrightarrow> releases g \<Longrightarrow> guarded (try_finally q (Put g (Ret ()))) Inside"
  by (induction q) auto

subsection \<open>The handlers follow the discipline\<close>

lemma notDetection [simp]:
  "\<not> isDetection (Spawn c args)" "\<not> isDetection (SetTitle s)" "\<not> isDetection (SetState n)"
  "\<not> isDetection (Delay ms)" "\<not> isDetection (Osascript CheckMeeting)"
  "\<not> isDetection (Osascript (KeyboardToggle a k))" "\<not> isDetection (Osascript (MenubarMute k))"
  "\<not> isDetection (Osascript (MenubarVideo k))"
  by (simp_all add: isDetection_def)

lemma quiet_executeAppleScript: "b \<or> \<not> isDetection (Osascript s) \<Longrightarrow> quiet b (executeAppleScript s)"
  by (simp add: executeAppleScript_def)

lemma quiet_isZoomRunning [simp]: "quiet b isZoomRunning"
  by (simp add: isZoomRunning_def executeCommand_def quiet_try_catch quiet_bind)

lemma quiet_isInMeeting [simp]: "quiet b isInMeeting"
  by (simp add: isInMeeting_def quiet_try_catch quiet_bind quiet_executeAppleScript)

lemma quiet_cleanup [simp]: "quiet b cleanup"
  by (simp add: cleanup_def keeps_def split: option.splits)

lemma quiet_startPeriodicStateCheck [simp]: "quiet b (startPeriodicStateCheck cfg)"
  by (simp add: startPeriodicStateCheck_def quiet_bind keeps_def)

lemma quiet_validateKeyboardShortcut [simp]: "quiet b (validateKeyboardShortcut s)"
  by (simp add: validateKeyboardShortcut_def)

lemma quiet_detect [simp]: "quiet True detectZoomMuteState" "quiet True detectZoomVideoState"
  by (simp_all add: detectZoomMuteState_def detectZoomVideoState_def quiet_try_catch quiet_bind
      quiet_executeAppleScript)

lemma quiet_detectState:
  "sub = ZoomMuteToggle \<or> sub = ZoomVideoToggle \<Longrightarrow> quiet True (detectState sub)"
  by auto

lemma quiet_setButtonState:
  "sub = ZoomMuteToggle \<or> sub = ZoomVideoToggle \<Longrightarrow> quiet b (setButtonState sub s)"
  by (auto simp: ZoomMuteToggle_def ZoomVideoToggle_def)

lemma toggleScript_notDetection:
  "sub = ZoomMuteToggle \<or> sub = ZoomVideoToggle
   \<Longrightarrow> \<not> isDetection (Osascript (getMenubarScript sub k))"
  by (auto simp: ZoomMuteToggle_def ZoomVideoToggle_def)

lemma quiet_executeToggleAction_loop:
  "sub = ZoomMuteToggle \<or> sub = ZoomVideoToggle
   \<Longrightarrow> quiet False (executeToggleAction_loop cfg sub meth shortcut a)"
proof (induction cfg sub meth shortcut a rule: executeToggleAction_loop.induct)
  case (1 cfg sub meth shortcut attempt)
  show ?case
    apply (subst executeToggleAction_loop.simps)
    using 1
    by (auto intro!: quiet_try_catch quiet_bind quiet_executeAppleScript
        simp: toggleScript_notDetection delay_def)
qed

lemma quiet_onKeyDown:
  "sub = ZoomMuteToggle \<or> sub = ZoomVideoToggle \<Longrightarrow> quiet False (onKeyDown cfg sub settings)"
  by (auto simp: onKeyDown_def executeToggleAction_def keeps_def
      intro!: quiet_try_catch quiet_bind quiet_executeToggleAction_loop)

lemma guarded_updateState:
  assumes "sub = ZoomMuteToggle \<or> sub = ZoomVideoToggle"
  shows "guarded (updateState sub) Outside"
proof -
  have body: "quiet True
      (try_catch
         (bind isZoomRunning (\<lambda>running.
            if \<not> running then AwaitUnit (SetTitle ''Zoom\<newline>Not Running'') (Ret ())
            else
              bind isInMeeting (\<lambda>inMeeting.
                if \<not> inMeeting then AwaitUnit (SetTitle ''Not in\<newline>Meeting'') (Ret ())
                else
                  bind (detectState sub) (\<lambda>detectedState.
                    if detectedState \<noteq> ''unknown'' then
                      bind (setButtonState sub detectedState) (\<lambda>_.
                        AwaitUnit (SetTitle []) (Ret ()))
                    else Ret ()))))
         (\<lambda>error. AwaitUnit (SetTitle ''Error'') (Ret ())))"
    using assms
    by (auto intro!: quiet_try_catch quiet_bind quiet_detectState quiet_setButtonState)
  have rel: "releases (\<lambda>w. w\<lparr>isUpdating := False\<rparr>)"
    and acq: "acquires (\<lambda>w. w\<lparr>isUpdating := True\<rparr>)"
    by (simp_all add: releases_def acquires_def)
  show ?thesis
    unfolding updateState_def updateState_body_def
    using guarded_try_finally [OF body rel] acq by simp
qed

lemma guarded_handlers:
  assumes "sub = ZoomMuteToggle \<or> sub = ZoomVideoToggle"
  shows "guarded (onWillAppear cfg sub) Outside"
    and "guarded onWillDisappear Outside"
    and "guarded (onKeyDown cfg sub settings) Outside"
    and "guarded (periodicStateCheck sub) Outside"
    and "guarded (stateUpdateCallback cfg sub) Outside"
proof -
  note u = guarded_updateState [OF assms]
  show "guarded (onWillAppear cfg sub) Outside"
    unfolding onWillAppear_def by (intro guarded_bind_quiet u) simp
  show "guarded (stateUpdateCallback cfg sub) Outside"
    unfolding stateUpdateCallback_def by (intro guarded_bind_quiet u) simp
  show "guarded onWillDisappear Outside"
    by (simp add: onWillDisappear_def quiet_guarded)
  show "guarded (onKeyDown cfg sub settings) Outside"
    using assms by (simp add: quiet_onKeyDown quiet_guarded)
  have inner: "guarded (bind isInMeeting (\<lambda>inMeeting. if inMeeting then updateState sub else Ret ()))
      Outside"
    by (rule quiet_bind_guarded) (simp_all add: u)
  show "guarded (periodicStateCheck sub) Outside"
    unfolding periodicStateCheck_def
    by (rule guarded_try_catch_quiet, rule quiet_bind_guarded) (simp_all add: inner)
qed

subsection \<open>Running and resuming keeps the discipline\<close>

lemma run_sync_guarded:
  assumes "guarded p m" and "m = Inside \<longrightarrow> isUpdating w" and "m = Free \<longrightarrow> \<not> isUpdating w"
    and "run_sync p w = (w', t)"
  shows "(isUpdating w' \<and> (\<exists>q. t = Some q \<and> guarded q Inside) \<and> (m \<noteq> Inside \<longrightarrow> \<not> isUpdating w))
       \<or> ((\<forall>q. t = Some q \<longrightarrow> guarded q Outside)
          \<and> (if m = Outside then isUpdating w' = isUpdating w else \<not> isUpdating w'))"
  using assms
proof (induction p arbitrary: m w)
  case (Ret x)
  then show ?case by (cases m) auto
next
  case (Raise e)
  then show ?case by (cases m) auto
next
  case (Get k)
  let ?m' = "if m = Outside then (if isUpdating w then Outside else Free) else m"
  have g: "guarded (k w) ?m'"
    using Get.prems(1,2,3) by (cases m) auto
  have r: "run_sync (k w) w = (w', t)"
    using Get.prems(4) by simp
  have "(isUpdating w' \<and> (\<exists>q. t = Some q \<and> guarded q Inside) \<and> (?m' \<noteq> Inside \<longrightarrow> \<not> isUpdating w))
       \<or> ((\<forall>q. t = Some q \<longrightarrow> guarded q Outside)
          \<and> (if ?m' = Outside then isUpdating w' = isUpdating w else \<not> isUpdating w'))"
    using g r Get.prems(2,3) by (intro Get.IH) (auto split: if_splits)
  then show ?case
    using Get.prems(2,3) by (cases m) (auto split: if_splits)
next
  case (Put g p)
  from Put.prems(4) have r: "run_sync p (g w) = (w', t)" by simp
  show ?case
  proof (cases m)
    case Outside
    with Put.prems(1) have k: "keeps g" and gp: "guarded p Outside" by auto
    from Put.IH [OF gp _ _ r] Outside k show ?thesis
      by (auto simp: keeps_def)
  next
    case Free
    with Put.prems(1) consider "keeps g" "guarded p Free" | "acquires g" "guarded p Inside"
      by auto
    then show ?thesis
    proof cases
      case 1
      with Put.prems(3) Free have "\<not> isUpdating (g w)" by (simp add: keeps_def)
      from Put.IH [OF 1(2) _ _ r] this Free Put.prems(3) show ?thesis by auto
    next
      case 2
      then have "isUpdating (g w)" by (simp add: acquires_def)
      from Put.IH [OF 2(2) _ _ r] this Free Put.prems(3) show ?thesis by auto
    qed
  next
    case Inside
    with Put.prems(1) consider "keeps g" "guarded p Inside" | "releases g" "guarded p Free"
      by auto
    then show ?thesis
    proof cases
      case 1
      with Put.prems(2) Inside have "isUpdating (g w)" by (simp add: keeps_def)
      from Put.IH [OF 1(2) _ _ r] this Inside show ?thesis by auto
    next
      case 2
      then have "\<not> isUpdating (g w)" by (simp add: releases_def)
      from Put.IH [OF 2(2) _ _ r] this Inside show ?thesis by auto
    qed
  qed
next
  case (AwaitProc c k)
  then show ?case by (cases m) auto
next
  case (AwaitUnit c p)
  then show ?case by (cases m) auto
qed

lemma guarded_resume:
  "guarded t m \<Longrightarrow> m \<noteq> Free \<Longrightarrow> guarded (resume t r) m"
  by (cases t; cases m) auto

subsection \<open>The invariant of the event loop\<close>

lemma holders_simps [simp]:
  "holders [] = 0"
  "holders (t # ts) = (if guarded t Outside then 0 else 1) + holders ts"
  "holders (as @ bs) = holders as + holders bs"
  by (simp_all add: holders_def)

lemma flag_inv_start:
  assumes "guarded p Outside" and "flag_inv c"
  shows "flag_inv (start p c)"
proof -
  obtain w ts where c: "c = (w, ts)" by (cases c)
  obtain w' t where r: "run_sync p w = (w', t)" by (cases "run_sync p w")
  from run_sync_guarded [OF assms(1) _ _ r]
  consider (acquired) q where "isUpdating w'" "t = Some q" "guarded q Inside" "\<not> isUpdating w"
    | (same) "\<forall>q. t = Some q \<longrightarrow> guarded q Outside" "isUpdating w' = isUpdating w"
    by auto
  then show ?thesis
  proof cases
    case acquired
    with assms(2) c r show ?thesis
      by (auto simp: flag_inv_def start_def)
  next
    case same
    with assms(2) c r show ?thesis
      by (cases t) (auto simp: flag_inv_def start_def)
  qed
qed

lemma flag_inv_world:
  "isUpdating w' = isUpdating (fst c) \<Longrightarrow> flag_inv c \<Longrightarrow> flag_inv (w', snd c)"
  by (simp add: flag_inv_def)

lemma flag_inv_settles:
  assumes "flag_inv c"
  shows "flag_inv (step cfg sub (Settles i r) c)"
proof (cases "i < length (snd c)")
  case False
  with assms show ?thesis by simp
next
  case True
  obtain w ts where c: "c = (w, ts)" by (cases c)
  let ?A = "take i ts" and ?B = "drop (Suc i) ts" and ?x = "ts ! i"
  from True c have ts: "ts = ?A @ ?x # ?B"
    by (simp add: id_take_nth_drop)
  from True c have upd: "\<And>q. ts[i := q] = ?A @ q # ?B"
    by (simp add: upd_conv_take_nth_drop)
  have sub_set: "set ?A \<subseteq> set ts" "set ?B \<subseteq> set ts"
    by (auto dest: in_set_takeD in_set_dropD)
  from assms c have each: "\<forall>t \<in> set ts. guarded t Outside \<or> guarded t Inside"
    and count: "holders ts \<le> (if isUpdating w then 1 else 0)"
    by (simp_all add: flag_inv_def)
  from count ts have count': "holders ?A + (if guarded ?x Outside then 0 else 1) + holders ?B
      \<le> (if isUpdating w then 1 else 0)"
    by (metis holders_simps(2,3) add.assoc)
  from each sub_set have eachAB: "\<forall>t \<in> set ?A \<union> set ?B. guarded t Outside \<or> guarded t Inside"
    by blast
  obtain w' t where r: "run_sync (resume ?x r) w = (w', t)"
    by (cases "run_sync (resume ?x r) w")
  have result: "step cfg sub (Settles i r) c =
      (case t of None \<Rightarrow> (w', ?A @ ?B) | Some q \<Rightarrow> (w', ?A @ q # ?B))"
    using True c r upd by (simp split: option.splits)
  show ?thesis
  proof (cases "guarded ?x Outside")
    case out: True
    then have g: "guarded (resume ?x r) Outside"
      by (simp add: guarded_resume)
    from run_sync_guarded [OF g _ _ r]
    consider (acquired) q where "isUpdating w'" "t = Some q" "guarded q Inside" "\<not> isUpdating w"
      | (same) "\<forall>q. t = Some q \<longrightarrow> guarded q Outside" "isUpdating w' = isUpdating w"
      by auto
    then show ?thesis
    proof cases
      case acquired
      with count' eachAB out show ?thesis
        unfolding result by (auto simp: flag_inv_def)
    next
      case same
      with count' eachAB out show ?thesis
        unfolding result by (cases t) (auto simp: flag_inv_def)
    qed
  next
    case notout: False
    with each True c have ins: "guarded ?x Inside"
      by auto
    from notout count' have held: "isUpdating w" and zero: "holders ?A = 0" "holders ?B = 0"
      by (auto split: if_splits)
    from ins have g: "guarded (resume ?x r) Inside"
      by (simp add: guarded_resume)
    from run_sync_guarded [OF g _ _ r] held
    consider (still) q where "isUpdating w'" "t = Some q" "guarded q Inside"
      | (released) "\<forall>q. t = Some q \<longrightarrow> guarded q Outside" "\<not> isUpdating w'"
      by auto
    then show ?thesis
    proof cases
      case still
      with zero eachAB show ?thesis
        unfolding result by (auto simp: flag_inv_def)
    next
      case released
      with zero eachAB show ?thesis
        unfolding result by (cases t) (auto simp: flag_inv_def)
    qed
  qed
qed

lemma flag_inv_step:
  assumes "sub = ZoomMuteToggle \<or> sub = ZoomVideoToggle" and "flag_inv c"
  shows "flag_inv (step cfg sub e c)"
proof (cases e)
  case WillAppear
  with assms show ?thesis by (simp add: flag_inv_start guarded_handlers)
next
  case WillDisappear
  with assms show ?thesis by (simp add: flag_inv_start guarded_handlers)
next
  case (KeyDown settings)
  with assms show ?thesis by (simp add: flag_inv_start guarded_handlers)
next
  case (IntervalFires h)
  with assms show ?thesis by (simp add: flag_inv_start guarded_handlers)
next
  case (TimeoutFires i)
  with assms show ?thesis
    by (auto intro!: flag_inv_start flag_inv_world simp: guarded_handlers)
next
  case (Settles i r)
  with assms(2) show ?thesis by (simp only: flag_inv_settles)
qed

lemma flag_inv_run:
  "sub = ZoomMuteToggle \<or> sub = ZoomVideoToggle \<Longrightarrow> flag_inv c \<Longrightarrow> flag_inv (run cfg sub es c)"
  by (induction es arbitrary: c) (simp_all add: flag_inv_step)

lemma awaitsDetection_not_Outside: "awaitsDetection t \<Longrightarrow> \<not> guarded t Outside"
  by (cases t) (auto simp: awaitsDetection_def)

lemma length_filter_mono:
  "(\<And>x. P x \<Longrightarrow> Q x) \<Longrightarrow> length (filter P xs) \<le> length (filter Q xs)"
  by (induction xs) auto

lemma flag_inv_detections:
  assumes "flag_inv (w, ts)"
  shows "length (filter awaitsDetection ts) \<le> (if isUpdating w then 1 else 0)"
proof -
  have "length (filter awaitsDetection ts) \<le> holders ts"
    unfolding holders_def by (rule length_filter_mono) (rule awaitsDetection_not_Outside)
  with assms show ?thesis
    by (auto simp: flag_inv_def split: if_splits)
qed

subsection \<open>State updates past the guard\<close>

lemma run_sync_reached:
  "run_sync p w = (w', Some t) \<Longrightarrow> t \<in> reached p \<and> awaited t \<noteq> None"
proof (induction p arbitrary: w)
  case (Get k)
  from Get.prems have "run_sync (k w) w = (w', Some t)" by simp
  then have "t \<in> reached (k w) \<and> awaited t \<noteq> None" by (rule Get.IH [OF rangeI])
  moreover have "k w \<in> reached (Get k)" by (rule reached.read) (rule reached.here)
  moreover have "x \<in> reached (Get k)" if "x \<in> reached (k w)" for x
    using that \<open>k w \<in> reached (Get k)\<close>
    by (induction rule: reached.induct) (auto intro: reached.intros)
  ultimately show ?case by blast
next
  case (Put g p)
  then have "t \<in> reached p \<and> awaited t \<noteq> None" by simp
  moreover have "p \<in> reached (Put g p)" by (rule reached.written) (rule reached.here)
  moreover have "x \<in> reached (Put g p)" if "x \<in> reached p" for x
    using that \<open>p \<in> reached (Put g p)\<close>
    by (induction rule: reached.induct) (auto intro: reached.intros)
  ultimately show ?case by blast
qed (auto intro: reached.here)

lemma reached_trans: "t \<in> reached q \<Longrightarrow> q \<in> reached p \<Longrightarrow> t \<in> reached p"
  by (induction rule: reached.induct) (auto intro: reached.intros)

lemma resume_reached: "t \<in> reached p \<Longrightarrow> resume t r \<in> reached p"
  by (cases t) (auto intro: reached.intros)

lemma inStateUpdate_resumed:
  assumes "inStateUpdate cfg sub t" and "run_sync (resume t r) w = (w', Some t')"
  shows "inStateUpdate cfg sub t'"
proof -
  from run_sync_reached [OF assms(2)]
  have 1: "t' \<in> reached (resume t r)" and 2: "awaited t' \<noteq> None" by simp_all
  from assms(1) consider
      "t \<in> reached (bind (updateState_body sub) (\<lambda>_. startPeriodicStateCheck cfg))"
    | "t \<in> reached (try_catch (updateState_body sub) (\<lambda>error. Ret ()))"
    by (auto simp: inStateUpdate_def)
  then show ?thesis
  proof cases
    case 1
    then have "t' \<in> reached (bind (updateState_body sub) (\<lambda>_. startPeriodicStateCheck cfg))"
      using \<open>t' \<in> reached (resume t r)\<close> by (blast intro: reached_trans resume_reached)
    with 2 show ?thesis by (simp add: inStateUpdate_def)
  next
    case 2
    then have "t' \<in> reached (try_catch (updateState_body sub) (\<lambda>error. Ret ()))"
      using \<open>t' \<in> reached (resume t r)\<close> by (blast intro: reached_trans resume_reached)
    with \<open>awaited t' \<noteq> None\<close> show ?thesis by (simp add: inStateUpdate_def)
  qed
qed

lemma ending_bind: "ending p \<Longrightarrow> (\<And>x. ending (f x)) \<Longrightarrow> ending (bind p f)"
  by (induction p) auto

lemma ending_try_catch: "ending p \<Longrightarrow> (\<And>e. ending (h e)) \<Longrightarrow> ending (try_catch p h)"
  by (induction p) auto

lemma committed_bind: "committed p \<Longrightarrow> (\<And>x. ending (f x)) \<Longrightarrow> committed (bind p f)"
  by (induction p) (auto simp: ending_bind)

lemma committed_try_catch:
  "committed p \<Longrightarrow> (\<And>e. ending (h e)) \<Longrightarrow> committed (try_catch p h)"
  by (induction p) (auto simp: ending_try_catch)

lemma committed_try_finally:
  "quiet True q \<Longrightarrow> releases g \<Longrightarrow> committed (try_finally q (Put g (Ret ())))"
  by (induction q) auto

lemma committed_updateState_body:
  assumes "sub = ZoomMuteToggle \<or> sub = ZoomVideoToggle"
  shows "committed (updateState_body sub)"
proof -
  have rel: "releases (\<lambda>w. w\<lparr>isUpdating := False\<rparr>)"
    by (simp add: releases_def)
  show ?thesis
    unfolding updateState_body_def
    using assms
    by (intro committed_try_finally rel)
       (auto intro!: quiet_try_catch quiet_bind quiet_detectState quiet_setButtonState)
qed

lemma ending_startPeriodicStateCheck: "ending (startPeriodicStateCheck cfg)"
  by (auto simp: startPeriodicStateCheck_def cleanup_def keeps_def intro!: ending_bind
      split: option.splits)

lemma committed_or_ending_reached:
  "t \<in> reached p \<Longrightarrow> committed p \<or> ending p \<Longrightarrow> committed t \<or> ending t"
  by (induction rule: reached.induct) auto

lemma inStateUpdate_committed:
  assumes "sub = ZoomMuteToggle \<or> sub = ZoomVideoToggle" and "inStateUpdate cfg sub t"
  shows "committed t"
proof -
  have a: "committed (bind (updateState_body sub) (\<lambda>_. startPeriodicStateCheck cfg))"
    by (intro committed_bind committed_updateState_body assms(1) ending_startPeriodicStateCheck)
  have b: "committed (try_catch (updateState_body sub) (\<lambda>error. Ret ()))"
    by (intro committed_try_catch committed_updateState_body assms(1)) simp
  from assms(2) a b have "committed t \<or> ending t"
    by (auto simp: inStateUpdate_def dest: committed_or_ending_reached)
  moreover from assms(2) have "\<not> ending t"
    by (cases t) (auto simp: inStateUpdate_def)
  ultimately show ?thesis by simp
qed

lemma committed_not_Outside: "committed p \<Longrightarrow> \<not> guarded p Outside"
proof (induction p)
  case (Get k)
  let ?w = "initial_world\<lparr>isUpdating := True\<rparr>"
  from Get.prems have "committed (k ?w)" by simp
  then have "\<not> guarded (k ?w) Outside" by (rule Get.IH [OF rangeI])
  moreover have "guarded (k ?w) Outside" if "guarded (Get k) Outside"
    using that by (auto dest!: spec [where x = ?w])
  ultimately show ?case by blast
next
  case (Put g p)
  have "\<not> (keeps g \<and> releases g)"
  proof
    assume a: "keeps g \<and> releases g"
    let ?w = "initial_world\<lparr>isUpdating := True\<rparr>"
    from a have "isUpdating (g ?w) = isUpdating ?w" by (simp add: keeps_def)
    moreover from a have "\<not> isUpdating (g ?w)" by (simp add: releases_def)
    ultimately show False by simp
  qed
  with Put show ?case by auto
qed auto

lemma ending_run_sync:
  "ending p \<Longrightarrow> run_sync p w = (w', t) \<Longrightarrow> t = None \<and> isUpdating w' = isUpdating w"
  by (induction p arbitrary: w) (auto simp: keeps_def)

lemma committed_run_sync:
  "committed p \<Longrightarrow> isUpdating w \<Longrightarrow> run_sync p w = (w', t) \<Longrightarrow>
   (case t of Some q \<Rightarrow> isUpdating w' \<and> committed q | None \<Rightarrow> \<not> isUpdating w')"
proof (induction p arbitrary: w)
  case (Put g p)
  from Put.prems(1) consider "keeps g" "committed p" | "releases g" "ending p" by auto
  then show ?case
  proof cases
    case 1
    with Put.prems(2) have "isUpdating (g w)" by (simp add: keeps_def)
    with Put.IH [OF 1(2) this] Put.prems(3) show ?thesis by simp
  next
    case 2
    then have "\<not> isUpdating (g w)" by (simp add: releases_def)
    with ending_run_sync [OF 2(2), of "g w" w' t] Put.prems(3) show ?thesis by simp
  qed
qed auto

lemma committed_resume: "committed t \<Longrightarrow> awaited t \<noteq> None \<Longrightarrow> committed (resume t r)"
  by (cases t) auto

lemma inStateUpdate_not_Outside:
  "sub = ZoomMuteToggle \<or> sub = ZoomVideoToggle \<Longrightarrow> inStateUpdate cfg sub t
   \<Longrightarrow> \<not> guarded t Outside"
  by (rule committed_not_Outside) (rule inStateUpdate_committed)

lemma flag_inv_state_updates:
  assumes "sub = ZoomMuteToggle \<or> sub = ZoomVideoToggle" and "flag_inv (w, ts)"
  shows "length (filter (inStateUpdate cfg sub) ts) \<le> (if isUpdating w then 1 else 0)"
proof -
  have "length (filter (inStateUpdate cfg sub) ts) \<le> holders ts"
    unfolding holders_def
    by (rule length_filter_mono) (rule inStateUpdate_not_Outside [OF assms(1)])
  with assms(2) show ?thesis
    by (auto simp: flag_inv_def split: if_splits)
qed

lemma inStateUpdate_keeps_flag:
  assumes "sub = ZoomMuteToggle \<or> sub = ZoomVideoToggle"
    and "inStateUpdate cfg sub t" and "isUpdating w"
  shows "case run_sync (resume t r) w of
           (w', Some t') \<Rightarrow> isUpdating w' \<and> inStateUpdate cfg sub t'
         | (w', None) \<Rightarrow> \<not> isUpdating w'"
proof -
  obtain w' t' where r: "run_sync (resume t r) w = (w', t')"
    by (cases "run_sync (resume t r) w")
  from assms(2) have aw: "awaited t \<noteq> None"
    by (simp add: inStateUpdate_def)
  from inStateUpdate_committed [OF assms(1,2)] aw have "committed (resume t r)"
    by (rule committed_resume)
  from committed_run_sync [OF this assms(3) r]
  have "case t' of Some q \<Rightarrow> isUpdating w' \<and> committed q | None \<Rightarrow> \<not> isUpdating w'" .
  with r inStateUpdate_resumed [OF assms(2), of r w w'] show ?thesis
    by (cases t') auto
qed

lemma run_sync_body_first:
  "\<exists>t. run_sync (bind (updateState_body sub) f) w =
          (issue (Spawn ''pgrep'' [''-f'', ''zoom.us'']) w, Some t)"
  "\<exists>t. run_sync (try_catch (updateState_body sub) h) w =
          (issue (Spawn ''pgrep'' [''-f'', ''zoom.us'']) w, Some t)"
  by (simp_all add: updateState_body_def isZoomRunning_def executeCommand_def)

lemma enter_in_bind:
  assumes "\<not> isUpdating v"
  shows "\<exists>t. run_sync (bind (updateState sub) (\<lambda>_. startPeriodicStateCheck cfg)) v =
            (issue (Spawn ''pgrep'' [''-f'', ''zoom.us'']) (v\<lparr>isUpdating := True\<rparr>), Some t)
          \<and> inStateUpdate cfg sub t"
proof -
  let ?p = "bind (updateState_body sub) (\<lambda>_. startPeriodicStateCheck cfg)"
  from run_sync_body_first(1) obtain t where
    t: "run_sync ?p (v\<lparr>isUpdating := True\<rparr>) =
          (issue (Spawn ''pgrep'' [''-f'', ''zoom.us'']) (v\<lparr>isUpdating := True\<rparr>), Some t)"
    by blast
  from run_sync_reached [OF t] have "inStateUpdate cfg sub t"
    by (simp add: inStateUpdate_def)
  with t assms show ?thesis
    by (simp add: updateState_def)
qed

lemma enter_in_try:
  assumes "\<not> isUpdating v"
  shows "\<exists>t. run_sync (try_catch (updateState sub) (\<lambda>error. Ret ())) v =
            (issue (Spawn ''pgrep'' [''-f'', ''zoom.us'']) (v\<lparr>isUpdating := True\<rparr>), Some t)
          \<and> inStateUpdate cfg sub t"
proof -
  let ?p = "try_catch (updateState_body sub) (\<lambda>error. Ret ())"
  from run_sync_body_first(2) obtain t where
    t: "run_sync ?p (v\<lparr>isUpdating := True\<rparr>) =
          (issue (Spawn ''pgrep'' [''-f'', ''zoom.us'']) (v\<lparr>isUpdating := True\<rparr>), Some t)"
    by blast
  from run_sync_reached [OF t] have "inStateUpdate cfg sub t"
    by (simp add: inStateUpdate_def)
  with t assms show ?thesis
    by (simp add: updateState_def)
qed

lemma enter_onWillAppear:
  assumes "\<not> isUpdating v"
  shows "\<exists>t. run cfg sub [WillAppear] (v, ts) =
            (issue (Spawn ''pgrep'' [''-f'', ''zoom.us'']) (v\<lparr>isUpdating := True\<rparr>), ts @ [t])
          \<and> inStateUpdate cfg sub t"
  using enter_in_bind [OF assms, of sub cfg]
  by (auto simp: start_def onWillAppear_def)

lemma enter_stateUpdateCallback:
  assumes "\<not> isUpdating v" and "i < length (timeouts v)"
  shows "\<exists>t. run cfg sub [TimeoutFires i] (v, ts) =
            (issue (Spawn ''pgrep'' [''-f'', ''zoom.us''])
               (v\<lparr>timeouts := take i (timeouts v) @ drop (Suc i) (timeouts v),
                  isUpdating := True\<rparr>),
             ts @ [t])
          \<and> inStateUpdate cfg sub t"
proof -
  let ?v = "v\<lparr>timeouts := take i (timeouts v) @ drop (Suc i) (timeouts v)\<rparr>"
  from assms(1) have "\<not> isUpdating ?v" by simp
  from enter_in_bind [OF this, of sub cfg] assms(2) show ?thesis
    by (auto simp: start_def stateUpdateCallback_def)
qed

lemma enter_periodicStateCheck:
  assumes "\<not> isUpdating v" and "h \<in> fst ` set (intervals v)"
    and "reportsRunning r0" and "reportsMeeting r1"
  shows "\<exists>t. run cfg sub [IntervalFires h, Settles (length ts) r0, Settles (length ts) r1] (v, ts) =
            (issue (Spawn ''pgrep'' [''-f'', ''zoom.us''])
               ((issue (Osascript CheckMeeting) (issue (Spawn ''pgrep'' [''-f'', ''zoom.us'']) v))
                  \<lparr>isUpdating := True\<rparr>),
             ts @ [t])
          \<and> inStateUpdate cfg sub t"
proof -
  from assms(3) obtain out where r0: "commandOutcome r0 = Inr out" "out \<noteq> []"
    by (cases "commandOutcome r0") (auto simp: reportsRunning_def)
  from assms(4) have r1: "appleScriptOutcome r1 = Inr ''true''"
    by (cases "appleScriptOutcome r1") (auto simp: reportsMeeting_def)
  let ?v = "issue (Osascript CheckMeeting) (issue (Spawn ''pgrep'' [''-f'', ''zoom.us'']) v)"
  from assms(1) have "\<not> isUpdating ?v" by simp
  from enter_in_try [OF this, of sub cfg] obtain t where
    t: "run_sync (try_catch (updateState sub) (\<lambda>error. Ret ())) ?v =
          (issue (Spawn ''pgrep'' [''-f'', ''zoom.us'']) (?v\<lparr>isUpdating := True\<rparr>), Some t)"
    and i: "inStateUpdate cfg sub t"
    by blast
  have "run cfg sub [IntervalFires h, Settles (length ts) r0, Settles (length ts) r1] (v, ts) =
          (issue (Spawn ''pgrep'' [''-f'', ''zoom.us'']) (?v\<lparr>isUpdating := True\<rparr>), ts @ [t])"
    using assms(2) r0 r1 t
    by (simp add: start_def periodicStateCheck_def isZoomRunning_def isInMeeting_def
        executeCommand_def executeAppleScript_def settle_def)
  with i show ?thesis by blast
qed

subsection \<open>A key press does not look at the flag\<close>

lemma issue_isUpdating: "issue c (w\<lparr>isUpdating := b\<rparr>) = (issue c w)\<lparr>isUpdating := b\<rparr>"
  by (cases c) simp_all

lemma exec_blind:
  "blind p \<Longrightarrow>
   exec p (w\<lparr>isUpdating := b\<rparr>) rs =
     map_option (\<lambda>(res, w', rest). (res, w'\<lparr>isUpdating := b\<rparr>, rest)) (exec p w rs)"
proof (induction p arbitrary: w rs)
  case (AwaitProc c k)
  then show ?case
    by (cases rs) (simp_all add: issue_isUpdating)
qed (simp_all add: issue_isUpdating)

lemma blind_bind: "blind p \<Longrightarrow> (\<And>x. blind (f x)) \<Longrightarrow> blind (bind p f)"
  by (induction p) auto

lemma blind_try_catch: "blind p \<Longrightarrow> (\<And>e. blind (h e)) \<Longrightarrow> blind (try_catch p h)"
  by (induction p) auto

lemma blind_settle [simp]: "blind (settle x)"
  by (cases x) (simp_all add: settle_def)

lemma blind_executeToggleAction_loop:
  "blind (executeToggleAction_loop cfg sub meth shortcut a)"
proof (induction cfg sub meth shortcut a rule: executeToggleAction_loop.induct)
  case (1 cfg sub meth shortcut attempt)
  show ?case
    apply (subst executeToggleAction_loop.simps)
    using 1
    by (auto intro!: blind_try_catch blind_bind simp: executeAppleScript_def delay_def)
qed

lemma blind_onKeyDown: "blind (onKeyDown cfg sub settings)"
  by (auto simp: onKeyDown_def executeToggleAction_def cleanup_def isZoomRunning_def
      executeCommand_def validateKeyboardShortcut_def
      intro!: blind_try_catch blind_bind blind_executeToggleAction_loop split: option.splits)

subsection \<open>C6\<close>

text \<open>
  C6 as stated fails. The mute action appears; its state update passes the guard, finds
  Zoom running and in a meeting, and is waiting for the detection script when the key is
  pressed. The key press is not ignored: its process check is answered, and it runs the
  toggle script. At that moment \<open>isUpdating\<close> is set, and two invocations are suspended,
  the state update on its detection script and the key press on the toggle script.
\<close>

theorem C6_counterexample:
  "fst (run config ZoomMuteToggle
          [WillAppear,
           Settles 0 (Closed (Some 0) ''4242'' []),
           Settles 0 (Closed (Some 0) ''true'' []),
           KeyDown \<lparr>controlMethod = None, keyboardShortcut = None\<rparr>,
           Settles 1 (Closed (Some 0) ''4242'' [])]
          (initial_world, [])) =
     \<lparr>isUpdating = True, stateCheckInterval = None, lastKnownState = ''unknown'', title = [],
      keyState = 0, intervals = [], timeouts = [], nextTimer = 0,
      trace = [Spawn ''pgrep'' [''-f'', ''zoom.us''], Osascript CheckMeeting,
               Osascript MonitorDetectMute, Spawn ''pgrep'' [''-f'', ''zoom.us''],
               Osascript (KeyboardToggle 100 (generateKeystrokeScript ''cmd+shift+option+a''))]\<rparr>
   \<and> map awaited
       (snd (run config ZoomMuteToggle
          [WillAppear,
           Settles 0 (Closed (Some 0) ''4242'' []),
           Settles 0 (Closed (Some 0) ''true'' []),
           KeyDown \<lparr>controlMethod = None, keyboardShortcut = None\<rparr>,
           Settles 1 (Closed (Some 0) ''4242'' [])]
          (initial_world, []))) =
     [Some (Osascript MonitorDetectMute),
      Some (Osascript (KeyboardToggle 100 (generateKeystrokeScript ''cmd+shift+option+a'')))]"
  by code_simp

text \<open>
  C6, amended. Take the mute or the video action, a controller on which no state update is
  in flight, and any sequence \<open>es\<close> of appearances, disappearances, key presses, interval
  ticks, one-shot timers firing and awaited calls settling, in any order. Afterwards at
  most one suspended invocation is in a state update, past the guard, and none is while
  \<open>isUpdating\<close> is clear; in particular at most one awaits a detection script. With
  \<open>isUpdating\<close> clear, an appearance, a one-shot timer that fires, and an interval tick
  whose two checks find Zoom running and in a meeting each pass the guard: \<open>isUpdating\<close>
  is then set and the new invocation is in a state update, awaiting its process check.
  With \<open>isUpdating\<close> set, an invocation in a state update whose call settles either is
  suspended again, still in the state update and with \<open>isUpdating\<close> still set, or has
  ended with \<open>isUpdating\<close> cleared; a state update that starts returns at once, with no
  call and no change; and a periodic tick makes its own process check, and its meeting
  check if Zoom is running, and no other call. A key press does the same whether
  \<open>isUpdating\<close> is set or clear, and leaves the flag as it is.
\<close>

theorem C6_state_updates_exclusive:
  assumes "sub = ZoomMuteToggle \<or> sub = ZoomVideoToggle" and "\<not> isUpdating w0"
  shows "length (filter (inStateUpdate cfg sub) (snd (run cfg sub es (w0, []))))
           \<le> (if isUpdating (fst (run cfg sub es (w0, []))) then 1 else 0)
     \<and> length (filter awaitsDetection (snd (run cfg sub es (w0, []))))
           \<le> (if isUpdating (fst (run cfg sub es (w0, []))) then 1 else 0)
     \<and> (\<not> isUpdating u \<longrightarrow>
           (\<exists>t. run cfg sub [WillAppear] (u, ts) =
                  (issue (Spawn ''pgrep'' [''-f'', ''zoom.us'']) (u\<lparr>isUpdating := True\<rparr>), ts @ [t])
                \<and> inStateUpdate cfg sub t)
           \<and> (i < length (timeouts u) \<longrightarrow>
                (\<exists>t. run cfg sub [TimeoutFires i] (u, ts) =
                       (issue (Spawn ''pgrep'' [''-f'', ''zoom.us''])
                          (u\<lparr>timeouts := take i (timeouts u) @ drop (Suc i) (timeouts u),
                             isUpdating := True\<rparr>),
                        ts @ [t])
                     \<and> inStateUpdate cfg sub t))
           \<and> (h \<in> fst ` set (intervals u) \<and> reportsRunning r0 \<and> reportsMeeting r1 \<longrightarrow>
                (\<exists>t. run cfg sub
                         [IntervalFires h, Settles (length ts) r0, Settles (length ts) r1] (u, ts) =
                       (issue (Spawn ''pgrep'' [''-f'', ''zoom.us''])
                          ((issue (Osascript CheckMeeting)
                              (issue (Spawn ''pgrep'' [''-f'', ''zoom.us'']) u))
                             \<lparr>isUpdating := True\<rparr>),
                        ts @ [t])
                     \<and> inStateUpdate cfg sub t)))
     \<and> (isUpdating v \<longrightarrow>
           (inStateUpdate cfg sub t \<longrightarrow>
              (case run_sync (resume t r) v of
                 (v', Some t') \<Rightarrow> isUpdating v' \<and> inStateUpdate cfg sub t'
               | (v', None) \<Rightarrow> \<not> isUpdating v'))
           \<and> run_sync (updateState sub) v = (v, None)
           \<and> exec (updateState sub) v rs = Some (Inr (), v, rs)
           \<and> exec (periodicStateCheck sub) v (r0 # r1 # rs) =
               Some (Inr (),
                     (if reportsRunning r0
                      then issue (Osascript CheckMeeting) (issue (Spawn ''pgrep'' [''-f'', ''zoom.us'']) v)
                      else issue (Spawn ''pgrep'' [''-f'', ''zoom.us'']) v),
                     (if reportsRunning r0 then rs else r1 # rs)))
     \<and> exec (onKeyDown cfg sub settings) (v\<lparr>isUpdating := b\<rparr>) rs =
         map_option (\<lambda>(res, v', rest). (res, v'\<lparr>isUpdating := b\<rparr>, rest))
           (exec (onKeyDown cfg sub settings) v rs)"
proof -
  have "flag_inv (w0, [])"
    using assms(2) by (simp add: flag_inv_def)
  then have inv: "flag_inv (run cfg sub es (w0, []))"
    using assms(1) by (rule flag_inv_run [rotated])
  have A: "length (filter (inStateUpdate cfg sub) (snd (run cfg sub es (w0, []))))
           \<le> (if isUpdating (fst (run cfg sub es (w0, []))) then 1 else 0)"
    using flag_inv_state_updates [OF assms(1), of "fst (run cfg sub es (w0, []))"
        "snd (run cfg sub es (w0, []))" cfg] inv
    by simp
  have A': "length (filter awaitsDetection (snd (run cfg sub es (w0, []))))
           \<le> (if isUpdating (fst (run cfg sub es (w0, []))) then 1 else 0)"
    using flag_inv_detections [of "fst (run cfg sub es (w0, []))" "snd (run cfg sub es (w0, []))"]
      inv
    by simp
  have D: "(\<exists>t. run cfg sub [WillAppear] (u, ts) =
                  (issue (Spawn ''pgrep'' [''-f'', ''zoom.us'']) (u\<lparr>isUpdating := True\<rparr>), ts @ [t])
                \<and> inStateUpdate cfg sub t)
           \<and> (i < length (timeouts u) \<longrightarrow>
                (\<exists>t. run cfg sub [TimeoutFires i] (u, ts) =
                       (issue (Spawn ''pgrep'' [''-f'', ''zoom.us''])
                          (u\<lparr>timeouts := take i (timeouts u) @ drop (Suc i) (timeouts u),
                             isUpdating := True\<rparr>),
                        ts @ [t])
                     \<and> inStateUpdate cfg sub t))
           \<and> (h \<in> fst ` set (intervals u) \<and> reportsRunning r0 \<and> reportsMeeting r1 \<longrightarrow>
                (\<exists>t. run cfg sub
                         [IntervalFires h, Settles (length ts) r0, Settles (length ts) r1] (u, ts) =
                       (issue (Spawn ''pgrep'' [''-f'', ''zoom.us''])
                          ((issue (Osascript CheckMeeting)
                              (issue (Spawn ''pgrep'' [''-f'', ''zoom.us'']) u))
                             \<lparr>isUpdating := True\<rparr>),
                        ts @ [t])
                     \<and> inStateUpdate cfg sub t))"
    if free: "\<not> isUpdating u"
  proof (intro conjI impI)
    show "\<exists>t. run cfg sub [WillAppear] (u, ts) =
                  (issue (Spawn ''pgrep'' [''-f'', ''zoom.us'']) (u\<lparr>isUpdating := True\<rparr>), ts @ [t])
                \<and> inStateUpdate cfg sub t"
      by (rule enter_onWillAppear [OF free])
  next
    assume "i < length (timeouts u)"
    with free show "\<exists>t. run cfg sub [TimeoutFires i] (u, ts) =
                       (issue (Spawn ''pgrep'' [''-f'', ''zoom.us''])
                          (u\<lparr>timeouts := take i (timeouts u) @ drop (Suc i) (timeouts u),
                             isUpdating := True\<rparr>),
                        ts @ [t])
                     \<and> inStateUpdate cfg sub t"
      by (rule enter_stateUpdateCallback)
  next
    assume "h \<in> fst ` set (intervals u) \<and> reportsRunning r0 \<and> reportsMeeting r1"
    with free show "\<exists>t. run cfg sub
                         [IntervalFires h, Settles (length ts) r0, Settles (length ts) r1] (u, ts) =
                       (issue (Spawn ''pgrep'' [''-f'', ''zoom.us''])
                          ((issue (Osascript CheckMeeting)
                              (issue (Spawn ''pgrep'' [''-f'', ''zoom.us'']) u))
                             \<lparr>isUpdating := True\<rparr>),
                        ts @ [t])
                     \<and> inStateUpdate cfg sub t"
      by (intro enter_periodicStateCheck) simp_all
  qed
  have B: "(inStateUpdate cfg sub t \<longrightarrow>
              (case run_sync (resume t r) v of
                 (v', Some t') \<Rightarrow> isUpdating v' \<and> inStateUpdate cfg sub t'
               | (v', None) \<Rightarrow> \<not> isUpdating v'))
           \<and> run_sync (updateState sub) v = (v, None)
           \<and> exec (updateState sub) v rs = Some (Inr (), v, rs)
           \<and> exec (periodicStateCheck sub) v (r0 # r1 # rs) =
               Some (Inr (),
                     (if reportsRunning r0
                      then issue (Osascript CheckMeeting) (issue (Spawn ''pgrep'' [''-f'', ''zoom.us'']) v)
                      else issue (Spawn ''pgrep'' [''-f'', ''zoom.us'']) v),
                     (if reportsRunning r0 then rs else r1 # rs))"
    if held: "isUpdating v"
  proof (intro conjI impI)
    assume "inStateUpdate cfg sub t"
    then show "case run_sync (resume t r) v of
                 (v', Some t') \<Rightarrow> isUpdating v' \<and> inStateUpdate cfg sub t'
               | (v', None) \<Rightarrow> \<not> isUpdating v'"
      using held by (rule inStateUpdate_keeps_flag [OF assms(1)])
  next
    from held show "run_sync (updateState sub) v = (v, None)"
      by (simp add: updateState_def)
    from held show "exec (updateState sub) v rs = Some (Inr (), v, rs)"
      by (rule exec_updateState_held)
    from held show "exec (periodicStateCheck sub) v (r0 # r1 # rs) =
               Some (Inr (),
                     (if reportsRunning r0
                      then issue (Osascript CheckMeeting) (issue (Spawn ''pgrep'' [''-f'', ''zoom.us'']) v)
                      else issue (Spawn ''pgrep'' [''-f'', ''zoom.us'']) v),
                     (if reportsRunning r0 then rs else r1 # rs))"
      by (simp add: periodicStateCheck_def exec_try_catch exec_bind exec_isZoomRunning
          exec_isInMeeting exec_updateState_held)
  qed
  have E: "exec (onKeyDown cfg sub settings) (v\<lparr>isUpdating := b\<rparr>) rs =
         map_option (\<lambda>(res, v', rest). (res, v'\<lparr>isUpdating := b\<rparr>, rest))
           (exec (onKeyDown cfg sub settings) v rs)"
    by (rule exec_blind) (rule blind_onKeyDown)
  show ?thesis
    by (rule conjI [OF A conjI [OF A' conjI [OF impI [OF D] conjI [OF impI [OF B] E]]]])
qed

theorem C6_state_updates_exclusive_witness:
  "\<not> isUpdating initial_world
   \<and> length (filter (inStateUpdate config ZoomMuteToggle)
        (snd (run config ZoomMuteToggle
           [WillAppear,
            Settles 0 (Closed (Some 0) ''4242'' []), Settles 0 (Closed (Some 0) ''true'' []),
            Settles 0 (Closed (Some 0) ''unmuted'' []), Settles 0 (Closed (Some 0) [] []),
            Settles 0 (Closed (Some 0) [] []),
            IntervalFires 0,
            Settles 0 (Closed (Some 0) ''4242'' []), Settles 0 (Closed (Some 0) ''true'' []),
            KeyDown \<lparr>controlMethod = None, keyboardShortcut = None\<rparr>,
            Settles 1 (Closed (Some 0) ''4242'' []), Settles 1 (Closed (Some 0) [] []),
            TimeoutFires 0,
            IntervalFires 1,
            Settles 1 (Closed (Some 0) ''4242'' []), Settles 1 (Closed (Some 0) ''true'' []),
            Settles 0 (Closed (Some 0) ''4242'' []), Settles 0 (Closed (Some 0) ''true'' [])]
           (initial_world, []))))
       \<le> (if isUpdating (fst (run config ZoomMuteToggle
           [WillAppear,
            Settles 0 (Closed (Some 0) ''4242'' []), Settles 0 (Closed (Some 0) ''true'' []),
            Settles 0 (Closed (Some 0) ''unmuted'' []), Settles 0 (Closed (Some 0) [] []),
            Settles 0 (Closed (Some 0) [] []),
            IntervalFires 0,
            Settles 0 (Closed (Some 0) ''4242'' []), Settles 0 (Closed (Some 0) ''true'' []),
            KeyDown \<lparr>controlMethod = None, keyboardShortcut = None\<rparr>,
            Settles 1 (Closed (Some 0) ''4242'' []), Settles 1 (Closed (Some 0) [] []),
            TimeoutFires 0,
            IntervalFires 1,
            Settles 1 (Closed (Some 0) ''4242'' []), Settles 1 (Closed (Some 0) ''true'' []),
            Settles 0 (Closed (Some 0) ''4242'' []), Settles 0 (Closed (Some 0) ''true'' [])]
           (initial_world, []))) then 1 else 0)
   \<and> fst (run config ZoomMuteToggle
           [WillAppear,
            Settles 0 (Closed (Some 0) ''4242'' []), Settles 0 (Closed (Some 0) ''true'' []),
            Settles 0 (Closed (Some 0) ''unmuted'' []), Settles 0 (Closed (Some 0) [] []),
            Settles 0 (Closed (Some 0) [] []),
            IntervalFires 0,
            Settles 0 (Closed (Some 0) ''4242'' []), Settles 0 (Closed (Some 0) ''true'' []),
            KeyDown \<lparr>controlMethod = None, keyboardShortcut = None\<rparr>,
            Settles 1 (Closed (Some 0) ''4242'' []), Settles 1 (Closed (Some 0) [] []),
            TimeoutFires 0,
            IntervalFires 1,
            Settles 1 (Closed (Some 0) ''4242'' []), Settles 1 (Closed (Some 0) ''true'' []),
            Settles 0 (Closed (Some 0) ''4242'' []), Settles 0 (Closed (Some 0) ''true'' [])]
           (initial_world, [])) =
       \<lparr>isUpdating = True, stateCheckInterval = Some 1, lastKnownState = ''unknown'',
        title = [], keyState = 1, intervals = [(1, 1000)], timeouts = [], nextTimer = 2,
        trace = [Spawn ''pgrep'' [''-f'', ''zoom.us''], Osascript CheckMeeting,
                 Osascript MonitorDetectMute, SetState 1, SetTitle [],
                 Spawn ''pgrep'' [''-f'', ''zoom.us''], Osascript CheckMeeting,
                 Spawn ''pgrep'' [''-f'', ''zoom.us''],
                 Spawn ''pgrep'' [''-f'', ''zoom.us''],
                 Osascript (KeyboardToggle 100 (generateKeystrokeScript ''cmd+shift+option+a'')),
                 Spawn ''pgrep'' [''-f'', ''zoom.us''], Osascript CheckMeeting,
                 Osascript CheckMeeting, Osascript MonitorDetectMute]\<rparr>
   \<and> map awaited
        (snd (run config ZoomMuteToggle
           [WillAppear,
            Settles 0 (Closed (Some 0) ''4242'' []), Settles 0 (Closed (Some 0) ''true'' []),
            Settles 0 (Closed (Some 0) ''unmuted'' []), Settles 0 (Closed (Some 0) [] []),
            Settles 0 (Closed (Some 0) [] []),
            IntervalFires 0,
            Settles 0 (Closed (Some 0) ''4242'' []), Settles 0 (Closed (Some 0) ''true'' []),
            KeyDown \<lparr>controlMethod = None, keyboardShortcut = None\<rparr>,
            Settles 1 (Closed (Some 0) ''4242'' []), Settles 1 (Closed (Some 0) [] []),
            TimeoutFires 0,
            IntervalFires 1,
            Settles 1 (Closed (Some 0) ''4242'' []), Settles 1 (Closed (Some 0) ''true'' []),
            Settles 0 (Closed (Some 0) ''4242'' []), Settles 0 (Closed (Some 0) ''true'' [])]
           (initial_world, []))) = [Some (Osascript MonitorDetectMute)]
   \<and> isUpdating (fst (run config ZoomMuteToggle [WillAppear] (initial_world, [])))
   \<and> inStateUpdate config ZoomMuteToggle
        (hd (snd (run config ZoomMuteToggle [WillAppear] (initial_world, []))))
   \<and> 0 < length (timeouts (initial_world\<lparr>timeouts := [1000]\<rparr>))
   \<and> inStateUpdate config ZoomMuteToggle
        (hd (snd (run config ZoomMuteToggle [TimeoutFires 0]
           (initial_world\<lparr>timeouts := [1000]\<rparr>, []))))
   \<and> 0 \<in> fst ` set (intervals (initial_world\<lparr>intervals := [(0, 1000)]\<rparr>))
   \<and> reportsRunning (Closed (Some 0) ''4242'' [])
   \<and> reportsMeeting (Closed (Some 0) ''true'' [])
   \<and> inStateUpdate config ZoomMuteToggle
        (hd (snd (run config ZoomMuteToggle
           [IntervalFires 0, Settles 0 (Closed (Some 0) ''4242'' []),
            Settles 0 (Closed (Some 0) ''true'' [])]
           (initial_world\<lparr>intervals := [(0, 1000)]\<rparr>, []))))
   \<and> map_option awaited
        (snd (run_sync
           (resume (hd (snd (run config ZoomMuteToggle [WillAppear] (initial_world, []))))
              (Closed (Some 1) [] []))
           (fst (run config ZoomMuteToggle [WillAppear] (initial_world, []))))) =
       Some (Some (SetTitle ''Zoom\<newline>Not Running''))
   \<and> isUpdating
        (fst (run_sync
           (resume (hd (snd (run config ZoomMuteToggle [WillAppear] (initial_world, []))))
              (Closed (Some 1) [] []))
           (fst (run config ZoomMuteToggle [WillAppear] (initial_world, [])))))
   \<and> inStateUpdate config ZoomMuteToggle
        (the (snd (run_sync
           (resume (hd (snd (run config ZoomMuteToggle [WillAppear] (initial_world, []))))
              (Closed (Some 1) [] []))
           (fst (run config ZoomMuteToggle [WillAppear] (initial_world, []))))))
   \<and> map_option awaited
        (snd (run_sync
           (resume
              (the (snd (run_sync
                 (resume (hd (snd (run config ZoomMuteToggle [WillAppear] (initial_world, []))))
                    (Closed (Some 1) [] []))
                 (fst (run config ZoomMuteToggle [WillAppear] (initial_world, []))))))
              (Closed (Some 0) [] []))
           (fst (run_sync
              (resume (hd (snd (run config ZoomMuteToggle [WillAppear] (initial_world, []))))
                 (Closed (Some 1) [] []))
              (fst (run config ZoomMuteToggle [WillAppear] (initial_world, []))))))) = None
   \<and> \<not> isUpdating
        (fst (run_sync
           (resume
              (the (snd (run_sync
                 (resume (hd (snd (run config ZoomMuteToggle [WillAppear] (initial_world, []))))
                    (Closed (Some 1) [] []))
                 (fst (run config ZoomMuteToggle [WillAppear] (initial_world, []))))))
              (Closed (Some 0) [] []))
           (fst (run_sync
              (resume (hd (snd (run config ZoomMuteToggle [WillAppear] (initial_world, []))))
                 (Closed (Some 1) [] []))
              (fst (run config ZoomMuteToggle [WillAppear] (initial_world, [])))))))
   \<and> isUpdating (initial_world\<lparr>isUpdating := True\<rparr>)
   \<and> run_sync (updateState ZoomMuteToggle) (initial_world\<lparr>isUpdating := True\<rparr>) =
       (initial_world\<lparr>isUpdating := True\<rparr>, None)
   \<and> exec (updateState ZoomMuteToggle) (initial_world\<lparr>isUpdating := True\<rparr>)
        [Closed (Some 0) ''4242'' []] =
       Some (Inr (), initial_world\<lparr>isUpdating := True\<rparr>, [Closed (Some 0) ''4242'' []])
   \<and> exec (periodicStateCheck ZoomMuteToggle) (initial_world\<lparr>isUpdating := True\<rparr>)
        [Closed (Some 0) ''4242'' [], Closed (Some 0) ''true'' [], Closed (Some 0) ''muted'' []] =
       Some (Inr (),
             initial_world\<lparr>isUpdating := True,
                            trace := [Spawn ''pgrep'' [''-f'', ''zoom.us''], Osascript CheckMeeting]\<rparr>,
             [Closed (Some 0) ''muted'' []])
   \<and> exec (onKeyDown config ZoomMuteToggle \<lparr>controlMethod = None, keyboardShortcut = None\<rparr>)
        (initial_world\<lparr>isUpdating := True\<rparr>)
        [Closed (Some 0) ''4242'' [], Closed (Some 0) [] []] =
       Some (Inr (),
             initial_world\<lparr>isUpdating := True, timeouts := [1000],
                            trace := [Spawn ''pgrep'' [''-f'', ''zoom.us''],
                                      Osascript (KeyboardToggle 100
                                         (generateKeystrokeScript ''cmd+shift+option+a''))]\<rparr>,
             [])"
proof -
  let ?es = "[WillAppear,
            Settles 0 (Closed (Some 0) ''4242'' []), Settles 0 (Closed (Some 0) ''true'' []),
            Settles 0 (Closed (Some 0) ''unmuted'' []), Settles 0 (Closed (Some 0) [] []),
            Settles 0 (Closed (Some 0) [] []),
            IntervalFires 0,
            Settles 0 (Closed (Some 0) ''4242'' []), Settles 0 (Closed (Some 0) ''true'' []),
            KeyDown \<lparr>controlMethod = None, keyboardShortcut = None\<rparr>,
            Settles 1 (Closed (Some 0) ''4242'' []), Settles 1 (Closed (Some 0) [] []),
            TimeoutFires 0,
            IntervalFires 1,
            Settles 1 (Closed (Some 0) ''4242'' []), Settles 1 (Closed (Some 0) ''true'' []),
            Settles 0 (Closed (Some 0) ''4242'' []), Settles 0 (Closed (Some 0) ''true'' [])]"
  let ?r0 = "Closed (Some 0) ''4242'' []"
  let ?r1 = "Closed (Some 0) ''true'' []"
  let ?ack = "Closed (Some 0) [] []"
  let ?st = "\<lparr>controlMethod = None, keyboardShortcut = None\<rparr>"
  let ?v = "initial_world\<lparr>isUpdating := True\<rparr>"
  let ?c = "run config ZoomMuteToggle [WillAppear] (initial_world, [])"
  let ?x = "run_sync (resume (hd (snd ?c)) (Closed (Some 1) [] [])) (fst ?c)"
  let ?y = "run_sync (resume (the (snd ?x)) ?ack) (fst ?x)"
  let ?ut = "initial_world\<lparr>timeouts := [1000]\<rparr>"
  let ?ui = "initial_world\<lparr>intervals := [(0, 1000)]\<rparr>"
  have free: "\<not> isUpdating initial_world" and held: "isUpdating ?v"
    and freet: "\<not> isUpdating ?ut" and freei: "\<not> isUpdating ?ui"
    by (simp_all add: initial_world_def)
  have run: "reportsRunning ?r0" and meet: "reportsMeeting ?r1"
    by (simp_all add: reportsRunning_def reportsMeeting_def trim_def isWhiteSpace_def)
  have armed: "0 < length (timeouts ?ut)" and live: "0 \<in> fst ` set (intervals ?ui)"
    by simp_all
  note inst = C6_state_updates_exclusive [OF disjI1 [OF refl] free, where cfg = config]
  from inst [where es = ?es]
  have c1: "length (filter (inStateUpdate config ZoomMuteToggle)
        (snd (run config ZoomMuteToggle ?es (initial_world, []))))
       \<le> (if isUpdating (fst (run config ZoomMuteToggle ?es (initial_world, []))) then 1 else 0)"
    by (rule conjunct1)
  have world: "fst (run config ZoomMuteToggle ?es (initial_world, [])) =
       \<lparr>isUpdating = True, stateCheckInterval = Some 1, lastKnownState = ''unknown'',
        title = [], keyState = 1, intervals = [(1, 1000)], timeouts = [], nextTimer = 2,
        trace = [Spawn ''pgrep'' [''-f'', ''zoom.us''], Osascript CheckMeeting,
                 Osascript MonitorDetectMute, SetState 1, SetTitle [],
                 Spawn ''pgrep'' [''-f'', ''zoom.us''], Osascript CheckMeeting,
                 Spawn ''pgrep'' [''-f'', ''zoom.us''],
                 Spawn ''pgrep'' [''-f'', ''zoom.us''],
                 Osascript (KeyboardToggle 100 (generateKeystrokeScript ''cmd+shift+option+a'')),
                 Spawn ''pgrep'' [''-f'', ''zoom.us''], Osascript CheckMeeting,
                 Osascript CheckMeeting, Osascript MonitorDetectMute]\<rparr>"
    by code_simp
  have pool: "map awaited (snd (run config ZoomMuteToggle ?es (initial_world, []))) =
      [Some (Osascript MonitorDetectMute)]"
    by code_simp
  have entered: "fst c = w \<and> P (hd (snd c))" if "\<exists>t. c = (w, [] @ [t]) \<and> P t"
    for c :: "world \<times> unit prog list" and w P
    using that by auto
  from inst [where u = initial_world and ts = "[]"] free
  have "\<exists>t. ?c = (issue (Spawn ''pgrep'' [''-f'', ''zoom.us''])
                     (initial_world\<lparr>isUpdating := True\<rparr>), [] @ [t])
           \<and> inStateUpdate config ZoomMuteToggle t"
    by blast
  from entered [OF this]
  have fc: "fst ?c = issue (Spawn ''pgrep'' [''-f'', ''zoom.us''])
                     (initial_world\<lparr>isUpdating := True\<rparr>)"
    and d1': "inStateUpdate config ZoomMuteToggle (hd (snd ?c))"
    by (rule conjunct1, rule conjunct2)
  have d1: "isUpdating (fst ?c)"
    unfolding fc by simp
  from inst [where u = ?ut and ts = "[]" and i = 0] freet armed
  have "\<exists>t. run config ZoomMuteToggle [TimeoutFires 0] (?ut, []) =
             (issue (Spawn ''pgrep'' [''-f'', ''zoom.us''])
                (?ut\<lparr>timeouts := take 0 (timeouts ?ut) @ drop (Suc 0) (timeouts ?ut),
                     isUpdating := True\<rparr>), [] @ [t])
           \<and> inStateUpdate config ZoomMuteToggle t"
    by blast
  from entered [OF this]
  have d2: "inStateUpdate config ZoomMuteToggle
        (hd (snd (run config ZoomMuteToggle [TimeoutFires 0] (?ut, []))))"
    by (rule conjunct2)
  from inst [where u = ?ui and ts = "[]" and h = 0 and ?r0.0 = ?r0 and ?r1.0 = ?r1]
    freei live run meet
  have "\<exists>t. run config ZoomMuteToggle
               [IntervalFires 0, Settles (length ([] :: unit prog list)) ?r0,
                Settles (length ([] :: unit prog list)) ?r1] (?ui, []) =
             (issue (Spawn ''pgrep'' [''-f'', ''zoom.us''])
                ((issue (Osascript CheckMeeting)
                    (issue (Spawn ''pgrep'' [''-f'', ''zoom.us'']) ?ui))
                   \<lparr>isUpdating := True\<rparr>), [] @ [t])
           \<and> inStateUpdate config ZoomMuteToggle t"
    by blast
  from entered [OF this]
  have d3: "inStateUpdate config ZoomMuteToggle
        (hd (snd (run config ZoomMuteToggle [IntervalFires 0, Settles 0 ?r0, Settles 0 ?r1]
           (?ui, []))))"
    unfolding list.size by (rule conjunct2)
  have x: "map_option awaited (snd ?x) = Some (Some (SetTitle ''Zoom\<newline>Not Running''))"
    by code_simp
  then obtain t' where t': "snd ?x = Some t'"
    by (cases "snd ?x") simp_all
  note held_part = inst [THEN conjunct2, THEN conjunct2, THEN conjunct2, THEN conjunct1, THEN mp]
  note key_part = inst [THEN conjunct2, THEN conjunct2, THEN conjunct2, THEN conjunct2]
  have "case ?x of (v', Some t') \<Rightarrow> isUpdating v' \<and> inStateUpdate config ZoomMuteToggle t'
        | (v', None) \<Rightarrow> \<not> isUpdating v'"
    by (rule held_part [OF d1, THEN conjunct1, THEN mp, OF d1'])
  with t' have b1: "isUpdating (fst ?x)"
    and b1': "inStateUpdate config ZoomMuteToggle (the (snd ?x))"
    by (cases "?x"; simp)+
  have y: "map_option awaited (snd ?y) = None"
    by code_simp
  then have none: "snd ?y = None"
    by simp
  have "case ?y of (v', Some t') \<Rightarrow> isUpdating v' \<and> inStateUpdate config ZoomMuteToggle t'
        | (v', None) \<Rightarrow> \<not> isUpdating v'"
    by (rule held_part [OF b1, THEN conjunct1, THEN mp, OF b1'])
  with none have b2: "\<not> isUpdating (fst ?y)"
    by (cases "?y") simp
  have c2: "run_sync (updateState ZoomMuteToggle) ?v = (?v, None)"
    by (rule held_part [OF held, THEN conjunct2, THEN conjunct1])
  have c3: "exec (updateState ZoomMuteToggle) ?v [?r0] = Some (Inr (), ?v, [?r0])"
    by (rule held_part [OF held, THEN conjunct2, THEN conjunct2, THEN conjunct1])
  from inst [where v = ?v and rs = "[Closed (Some 0) ''muted'' []]" and ?r0.0 = ?r0
      and ?r1.0 = ?r1, THEN conjunct2, THEN conjunct2, THEN conjunct2, THEN conjunct1, THEN mp,
      OF held, THEN conjunct2, THEN conjunct2, THEN conjunct2] run
  have c4: "exec (periodicStateCheck ZoomMuteToggle) ?v
        [?r0, ?r1, Closed (Some 0) ''muted'' []] =
       Some (Inr (),
             initial_world\<lparr>isUpdating := True,
                            trace := [Spawn ''pgrep'' [''-f'', ''zoom.us''], Osascript CheckMeeting]\<rparr>,
             [Closed (Some 0) ''muted'' []])"
    by (simp add: initial_world_def)
  have key: "exec (onKeyDown config ZoomMuteToggle ?st) initial_world [?r0, ?ack] =
       Some (Inr (),
             initial_world\<lparr>timeouts := [1000],
                            trace := [Spawn ''pgrep'' [''-f'', ''zoom.us''],
                                      Osascript (KeyboardToggle 100
                                         (generateKeystrokeScript ''cmd+shift+option+a''))]\<rparr>,
             [])"
    by code_simp
  have "exec (onKeyDown config ZoomMuteToggle ?st) ?v [?r0, ?ack] =
         map_option (\<lambda>(res, v', rest). (res, v'\<lparr>isUpdating := True\<rparr>, rest))
           (exec (onKeyDown config ZoomMuteToggle ?st) initial_world [?r0, ?ack])"
    by (rule key_part)
  with key have e: "exec (onKeyDown config ZoomMuteToggle ?st) ?v [?r0, ?ack] =
       Some (Inr (),
             initial_world\<lparr>isUpdating := True, timeouts := [1000],
                            trace := [Spawn ''pgrep'' [''-f'', ''zoom.us''],
                                      Osascript (KeyboardToggle 100
                                         (generateKeystrokeScript ''cmd+shift+option+a''))]\<rparr>,
             [])"
    by (simp add: initial_world_def)
  show ?thesis
    by (intro conjI free c1 world pool d1 d1' armed d2 live run meet d3 x b1 b1' y b2 held
        c2 c3 c4 e)
qed

end
